theory Spec2Isabelle
  imports Complex_Main "HOL-Library.AList" "HOL-Library.Sublist"
begin

section \<open>The response cache (class CacheService)\<close>

text \<open>
  A cache entry is the object \<^verbatim>\<open>{ data, timestamp, ttl }\<close>; times are the
  millisecond readings of \<^verbatim>\<open>Date.now()\<close>. The store is a JavaScript \<^verbatim>\<open>Map\<close>, kept here as
  the list of its entries in insertion order: \<^verbatim>\<open>Map.set\<close> overwrites an entry where it
  stands or appends a new one (\<^const>\<open>AList.update\<close>), \<^verbatim>\<open>Map.get\<close> is \<^const>\<open>map_of\<close>
  and \<^verbatim>\<open>Map.delete\<close> is \<^const>\<open>AList.delete\<close>.
\<close>

record 'v CacheEntry =
  data :: 'v
  timestamp :: int
  ttl :: int

type_synonym 'v cache = "(string \<times> 'v CacheEntry) list"

definition defaultTTL :: int where
  "defaultTTL = 5 * 60 * 1000"

text \<open>
  \<^verbatim>\<open>ttl || this.defaultTTL\<close>: an omitted ttl (\<open>None\<close>) and a ttl of 0 are both falsy and
  give the default.
\<close>

definition ttl_or_default :: "int option \<Rightarrow> int" where
  "ttl_or_default t = (case t of None \<Rightarrow> defaultTTL | Some n \<Rightarrow> if n = 0 then defaultTTL else n)"

definition cache_set :: "int \<Rightarrow> string \<Rightarrow> 'v \<Rightarrow> int option \<Rightarrow> 'v cache \<Rightarrow> 'v cache" where
  "cache_set now key d t c =
     AList.update key \<lparr>data = d, timestamp = now, ttl = ttl_or_default t\<rparr> c"

text \<open>\<^verbatim>\<open>get\<close> returns the value (\<open>None\<close> for \<^verbatim>\<open>null\<close>) and the store, from which an
  expired entry has been deleted.\<close>

definition cache_get :: "int \<Rightarrow> string \<Rightarrow> 'v cache \<Rightarrow> 'v option \<times> 'v cache" where
  "cache_get now key c =
     (case map_of c key of
        None \<Rightarrow> (None, c)
      | Some entry \<Rightarrow>
          let age = now - timestamp entry in
          if age > ttl entry then (None, AList.delete key c)
          else (Some (data entry), c))"

definition cache_delete :: "string \<Rightarrow> 'v cache \<Rightarrow> 'v cache" where
  "cache_delete key c = AList.delete key c"

text \<open>\<^verbatim>\<open>key.includes(pattern)\<close>: the pattern occurs at some position of the key.\<close>

fun js_includes :: "string \<Rightarrow> string \<Rightarrow> bool" where
  "js_includes [] p = (p = [])"
| "js_includes (c # cs) p = (prefix p (c # cs) \<or> js_includes cs p)"

text \<open>The loop of \<^verbatim>\<open>invalidatePattern\<close> over \<^verbatim>\<open>this.cache.keys()\<close>, with the store and
  the counter as its state.\<close>

fun invalidate_loop :: "string \<Rightarrow> string list \<Rightarrow> 'v cache \<times> nat \<Rightarrow> 'v cache \<times> nat" where
  "invalidate_loop p [] (c, n) = (c, n)"
| "invalidate_loop p (k # ks) (c, n) =
     (if js_includes k p then invalidate_loop p ks (AList.delete k c, n + 1)
      else invalidate_loop p ks (c, n))"

definition invalidatePattern :: "string \<Rightarrow> 'v cache \<Rightarrow> nat \<times> 'v cache" where
  "invalidatePattern p c = (case invalidate_loop p (map fst c) (c, 0) of (c', n) \<Rightarrow> (n, c'))"

subsection \<open>The cache with an external store (class RedisCacheService)\<close>

text \<open>
  \<^verbatim>\<open>RedisCacheService\<close> keeps the same in-process store, \<^verbatim>\<open>memoryCache\<close>, beside a Redis
  client that it uses when \<^verbatim>\<open>useRedis\<close> is set (the client exists whenever the flag is
  set). The server is not code of the repository: \<open>redisStore\<close> is what it holds when
  \<^verbatim>\<open>invalidatePattern\<close> is called, under keys that are pairwise different, and its two
  commands are modelled from their documentation. \<^verbatim>\<open>KEYS\<close> lists the keys that match a
  glob-style pattern, in which \<^verbatim>\<open>*\<close> stands for any text, \<^verbatim>\<open>?\<close> for any one character,
  \<^verbatim>\<open>[ae]\<close>, \<^verbatim>\<open>[^e]\<close> and \<^verbatim>\<open>[a-c]\<close> for one character in, or not in, a set, and a backslash
  takes the character after it literally; \<^verbatim>\<open>DEL\<close> removes the keys it is given.
\<close>

text \<open>The body of a character set, read up to its closing bracket: whether the
  character \<open>c\<close> is in the set, and the pattern after the bracket.\<close>

definition in_range :: "char \<Rightarrow> char \<Rightarrow> char \<Rightarrow> bool" where
  "in_range lo hi c =
     (min (of_char lo) (of_char hi) \<le> (of_char c :: nat) \<and> (of_char c :: nat) \<le> max (of_char lo) (of_char hi))"

fun glob_class :: "string \<Rightarrow> char \<Rightarrow> bool \<times> string" where
  "glob_class [] c = (False, [])"
| "glob_class [x] c = (x \<noteq> CHR '']'' \<and> x = c, [])"
| "glob_class (x # y # p) c =
     (if x = CHR '']'' then (False, y # p)
      else if x = CHR 0x5C then apfst (\<lambda>m. m \<or> y = c) (glob_class p c)
      else if y = CHR ''-'' \<and> p \<noteq> [] then
        apfst (\<lambda>m. m \<or> in_range x (hd p) c) (glob_class (tl p) c)
      else apfst (\<lambda>m. m \<or> x = c) (glob_class (y # p) c))"

lemma glob_class_length: "length (snd (glob_class p c)) \<le> length p"
  by (induction p c rule: glob_class.induct) (auto simp: le_Suc_eq)

text \<open>Whether the key \<open>s\<close> matches the pattern.\<close>

function redis_glob :: "string \<Rightarrow> string \<Rightarrow> bool" where
  "redis_glob [] s = (s = [])"
| "redis_glob (x # p) [] = (x = CHR ''*'' \<and> redis_glob p [])"
| "redis_glob (x # p) (c # s) =
     (if x = CHR ''*'' then redis_glob p (c # s) \<or> redis_glob (x # p) s
      else if x = CHR ''?'' then redis_glob p s
      else if x = CHR ''['' then
        (let negated = (p \<noteq> [] \<and> hd p = CHR ''^'')
         in case glob_class (if negated then tl p else p) c of
              (m, rest) \<Rightarrow> m \<noteq> negated \<and> redis_glob rest s)
      else if x = CHR 0x5C \<and> p \<noteq> [] then hd p = c \<and> redis_glob (tl p) s
      else x = c \<and> redis_glob p s)"
  by pat_completeness auto

termination
proof (relation "measure (\<lambda>(p, s). length p + length s)", goal_cases)
  case (6 x p c s negated m rest)
  then have "rest = snd (glob_class (if negated then tl p else p) c)"
    by (metis snd_conv)
  then have "length rest \<le> length p"
    using glob_class_length [of "if negated then tl p else p" c] by (auto split: if_splits)
  then show ?case by simp
qed auto

definition redis_keys :: "string \<Rightarrow> 'v cache \<Rightarrow> string list" where
  "redis_keys g store = filter (redis_glob g) (map fst store)"

definition redis_del :: "string list \<Rightarrow> 'v cache \<Rightarrow> 'v cache" where
  "redis_del keys store = filter (\<lambda>e. fst e \<notin> set keys) store"

text \<open>
  How the calls of the client end is not decided by the code: both work, or \<^verbatim>\<open>keys\<close> is
  rejected, or \<^verbatim>\<open>del\<close> is (and then has removed nothing). A rejection is caught and logged.
  The loop over \<^verbatim>\<open>memoryCache\<close> that follows is the loop of \<^verbatim>\<open>CacheService\<close>, started at
  the count that the Redis branch left.
\<close>

datatype redis_calls = Works | KeysFails | DelFails

record 'v RedisCacheService =
  memoryCache :: "'v cache"
  redisStore :: "'v cache"
  useRedis :: bool

definition redis_branch :: "redis_calls \<Rightarrow> string \<Rightarrow> 'v cache \<Rightarrow> nat \<times> 'v cache" where
  "redis_branch calls p store =
     (if calls = KeysFails then (0, store)
      else let keys = redis_keys (CHR ''*'' # p @ ''*'') store
           in if length keys > 0
              then (if calls = DelFails then (0, store) else (0 + length keys, redis_del keys store))
              else (0, store))"

definition redis_invalidatePattern ::
  "redis_calls \<Rightarrow> string \<Rightarrow> 'v RedisCacheService \<Rightarrow> nat \<times> 'v RedisCacheService" where
  "redis_invalidatePattern calls p s =
     (case (if useRedis s then redis_branch calls p (redisStore s) else (0, redisStore s)) of
        (count, store) \<Rightarrow>
          (case invalidate_loop p (map fst (memoryCache s)) (memoryCache s, count) of
             (c', n) \<Rightarrow> (n, s\<lparr>memoryCache := c', redisStore := store\<rparr>)))"

section \<open>JavaScript values\<close>

subsection \<open>Numbers\<close>

text \<open>
  A JavaScript number is \<^verbatim>\<open>NaN\<close>, an infinity or a finite value. Finite values are kept
  exact, as rationals: the rounding of IEEE doubles and the sign of zero are not part of
  this model.
\<close>

datatype jsnum = NaN | PInf | NInf | Fin rat

fun js_add :: "jsnum \<Rightarrow> jsnum \<Rightarrow> jsnum" where
  "js_add NaN y = NaN"
| "js_add x NaN = NaN"
| "js_add (Fin a) (Fin b) = Fin (a + b)"
| "js_add PInf NInf = NaN"
| "js_add NInf PInf = NaN"
| "js_add PInf y = PInf"
| "js_add NInf y = NInf"
| "js_add (Fin a) y = y"

fun js_div :: "jsnum \<Rightarrow> jsnum \<Rightarrow> jsnum" where
  "js_div NaN y = NaN"
| "js_div x NaN = NaN"
| "js_div (Fin a) (Fin b) =
     (if b = 0 then (if a = 0 then NaN else if a > 0 then PInf else NInf) else Fin (a / b))"
| "js_div (Fin a) y = Fin 0"
| "js_div PInf (Fin b) = (if b < 0 then NInf else PInf)"
| "js_div NInf (Fin b) = (if b < 0 then PInf else NInf)"
| "js_div x y = NaN"

text \<open>\<^verbatim>\<open>Math.ceil\<close>.\<close>

fun js_ceil :: "jsnum \<Rightarrow> jsnum" where
  "js_ceil (Fin a) = Fin (of_int \<lceil>a\<rceil>)"
| "js_ceil x = x"

text \<open>The truth value of a number: \<^verbatim>\<open>NaN\<close> and 0 are falsy.\<close>

fun truthy_num :: "jsnum \<Rightarrow> bool" where
  "truthy_num NaN = False"
| "truthy_num (Fin a) = (a \<noteq> 0)"
| "truthy_num x = True"

subsection \<open>Reading numbers from text\<close>

definition is_digit :: "char \<Rightarrow> bool" where
  "is_digit c = (c \<in> set ''0123456789'')"

text \<open>The value of a digit, from its character code.\<close>

definition digit_val :: "char \<Rightarrow> nat" where
  "digit_val c = of_char c - 48"

fun digits_val :: "nat \<Rightarrow> string \<Rightarrow> nat" where
  "digits_val acc [] = acc"
| "digits_val acc (c # cs) = digits_val (10 * acc + digit_val c) cs"

text \<open>White space that \<^verbatim>\<open>parseFloat\<close>, \<^verbatim>\<open>parseInt\<close> and \<^verbatim>\<open>trim\<close> skip: space, tab, line
  feed, vertical tab, form feed, carriage return (texts are lists of 8-bit characters
  here; the white space beyond ASCII is not modelled).\<close>

definition is_space :: "char \<Rightarrow> bool" where
  "is_space c = (c = CHR '' '' \<or> c = CHR 0x09 \<or> c = CHR 0x0A \<or> c = CHR 0x0B \<or> c = CHR 0x0C \<or> c = CHR 0x0D)"

text \<open>The sign of a numeric text, and the text after it.\<close>

definition is_negative :: "string \<Rightarrow> bool" where
  "is_negative s = (case s of [] \<Rightarrow> False | c # cs \<Rightarrow> c = CHR ''-'')"

definition after_sign :: "string \<Rightarrow> string" where
  "after_sign s = (case s of [] \<Rightarrow> [] | c # cs \<Rightarrow> if c = CHR ''-'' \<or> c = CHR ''+'' then cs else s)"

text \<open>The exponent part \<^verbatim>\<open>e\<close>, sign, digits; it counts only when a digit follows.\<close>

definition exponent :: "string \<Rightarrow> int" where
  "exponent r =
     (case r of
        [] \<Rightarrow> 0
      | c # cs \<Rightarrow>
          if c = CHR ''e'' \<or> c = CHR ''E'' then
            (let ds = takeWhile is_digit (after_sign cs) in
             if ds = [] then 0
             else if is_negative cs then - int (digits_val 0 ds) else int (digits_val 0 ds))
          else 0)"

text \<open>
  \<^verbatim>\<open>parseFloat\<close>: leading white space is skipped, then the longest prefix that is a decimal
  literal (sign, digits, fraction, exponent, or \<^verbatim>\<open>Infinity\<close>) is read; text that starts with
  no such literal gives \<^verbatim>\<open>NaN\<close>.
\<close>

definition parseFloat :: "string \<Rightarrow> jsnum" where
  "parseFloat s =
     (let t = dropWhile is_space s;
          u = after_sign t
      in if prefix ''Infinity'' u then (if is_negative t then NInf else PInf)
         else
           let ip = takeWhile is_digit u;
               r1 = dropWhile is_digit u;
               dot = (case r1 of [] \<Rightarrow> False | c # cs \<Rightarrow> c = CHR ''.'');
               fp = (if dot then takeWhile is_digit (tl r1) else []);
               r2 = (if dot then dropWhile is_digit (tl r1) else r1)
           in if ip = [] \<and> fp = [] then NaN
              else
                let m = rat_of_nat (digits_val 0 (ip @ fp)) / 10 ^ length fp;
                    e = exponent r2;
                    x = (if e \<ge> 0 then m * 10 ^ nat e else m / 10 ^ nat (- e))
                in Fin (if is_negative t then - x else x))"

text \<open>\<^verbatim>\<open>String(n)\<close> for an array index \<open>n\<close>: its decimal digits.\<close>

definition digit_char :: "nat \<Rightarrow> char" where
  "digit_char d = ''0123456789'' ! d"

fun string_of_nat :: "nat \<Rightarrow> string" where
  "string_of_nat n =
     (if n < 10 then [digit_char n] else string_of_nat (n div 10) @ [digit_char (n mod 10)])"

declare string_of_nat.simps [simp del]

text \<open>\<^verbatim>\<open>String(n)\<close> for an integer.\<close>

definition string_of_int :: "int \<Rightarrow> string" where
  "string_of_int n = (if n < 0 then CHR ''-'' # string_of_nat (nat (- n)) else string_of_nat (nat n))"

text \<open>\<^verbatim>\<open>trim\<close>, and \<^verbatim>\<open>toUpperCase\<close> on the letters a to z (other characters are left as they
  are).\<close>

definition js_trim :: "string \<Rightarrow> string" where
  "js_trim s = rev (dropWhile is_space (rev (dropWhile is_space s)))"

definition upper_char :: "char \<Rightarrow> char" where
  "upper_char c =
     (case map_of (zip ''abcdefghijklmnopqrstuvwxyz'' ''ABCDEFGHIJKLMNOPQRSTUVWXYZ'') c of
        None \<Rightarrow> c
      | Some u \<Rightarrow> u)"

definition toUpperCase :: "string \<Rightarrow> string" where
  "toUpperCase s = map upper_char s"

text \<open>
  \<^verbatim>\<open>parseInt\<close> with no radix: leading white space and a sign are skipped, the digits that
  follow are read in base 16 after the prefix \<^verbatim>\<open>0x\<close> and in base 10 otherwise; without a
  digit the result is \<^verbatim>\<open>NaN\<close>.
\<close>

definition is_hex_digit :: "char \<Rightarrow> bool" where
  "is_hex_digit c = (c \<in> set ''0123456789abcdefABCDEF'')"

definition hex_val :: "char \<Rightarrow> nat" where
  "hex_val c =
     (if c = CHR ''a'' \<or> c = CHR ''A'' then 10 else if c = CHR ''b'' \<or> c = CHR ''B'' then 11
      else if c = CHR ''c'' \<or> c = CHR ''C'' then 12 else if c = CHR ''d'' \<or> c = CHR ''D'' then 13
      else if c = CHR ''e'' \<or> c = CHR ''E'' then 14 else if c = CHR ''f'' \<or> c = CHR ''F'' then 15
      else digit_val c)"

fun hex_digits_val :: "nat \<Rightarrow> string \<Rightarrow> nat" where
  "hex_digits_val acc [] = acc"
| "hex_digits_val acc (c # cs) = hex_digits_val (16 * acc + hex_val c) cs"

definition parseInt :: "string \<Rightarrow> jsnum" where
  "parseInt s =
     (let t = dropWhile is_space s;
          u = after_sign t;
          hex = (prefix ''0x'' u \<or> prefix ''0X'' u);
          ds = (if hex then takeWhile is_hex_digit (drop 2 u) else takeWhile is_digit u)
      in if ds = [] then NaN
         else
           let n = (if hex then hex_digits_val 0 ds else digits_val 0 ds)
           in Fin (if is_negative t then - rat_of_nat n else rat_of_nat n))"

subsection \<open>Errors\<close>

text \<open>
  The texts of the errors. The fixed messages of the service are constructors (their
  Portuguese wording is in the source); \<open>Text\<close> is a text that comes from the upstream or
  from the HTTP client, \<open>FalhaAutenticacao m\<close> is the template
  \<^verbatim>\<open>Falha na autenticacao Sankhya: ${m}\<close>.
\<close>

datatype msg =
    Text string
  | TypeErrorMsg
  | LoginSemToken
  | SankhyaIndisponivel
  | FalhaAutenticacao msg
  | SessaoExpirada
  | TempoExcedido
  | ServicoIndisponivel
  | ErroComunicacao
  | ErroBuscarInformacoes

text \<open>
  What a \<^verbatim>\<open>catch\<close> block reads of the value it caught: \<^verbatim>\<open>erro.response?.status\<close>,
  \<^verbatim>\<open>erro.code\<close>, \<^verbatim>\<open>erro.message\<close>, \<^verbatim>\<open>erro.response?.data?.error\<close> and
  \<^verbatim>\<open>erro.response?.data?.statusMessage\<close>. An \<^verbatim>\<open>Error\<close> made by \<^verbatim>\<open>new Error(m)\<close> has a
  message only.
\<close>

record js_error =
  status :: "nat option"
  code :: "string option"
  message :: msg
  data_error :: "string option"
  data_statusMessage :: "string option"

definition new_Error :: "msg \<Rightarrow> js_error" where
  "new_Error m = \<lparr>status = None, code = None, message = m, data_error = None, data_statusMessage = None\<rparr>"

section \<open>The record normalizer (mapearEntidades)\<close>

text \<open>
  The value of a field is a text; \<open>Undefined\<close> is a slot object without the \<^verbatim>\<open>$\<close> member.
  A raw entity maps the slot keys \<^verbatim>\<open>f0\<close>, \<^verbatim>\<open>f1\<close>, ... to the \<^verbatim>\<open>$\<close> of the slot object; a
  slot that is missing (or \<^verbatim>\<open>null\<close>) is not in the map. A normalized record maps property
  names to values. Rows are objects and field names are names of ordinary properties
  (a field called \<^verbatim>\<open>__proto__\<close> is outside this model).
\<close>

datatype field_value = Undefined | Str string

type_synonym raw_entity = "string \<rightharpoonup> field_value"

type_synonym clean_object = "string \<rightharpoonup> field_value"

datatype entity_member = NoEntity | Single raw_entity | Many "raw_entity list"

text \<open>
  \<^verbatim>\<open>entities\<close>: the names of \<^verbatim>\<open>metadata.fields.field\<close> in order (\<open>None\<close> when the response has
  no metadata), the member \<^verbatim>\<open>entity\<close>, and \<^verbatim>\<open>total\<close> as text.
\<close>

record entities =
  metadata :: "string list option"
  entity :: entity_member
  total :: "string option"

text \<open>The loop over the field names, from index \<open>i\<close> on.\<close>

fun fill_fields :: "string list \<Rightarrow> nat \<Rightarrow> raw_entity \<Rightarrow> clean_object \<Rightarrow> clean_object" where
  "fill_fields [] i rawEntity cleanObject = cleanObject"
| "fill_fields (fieldName # names) i rawEntity cleanObject =
     fill_fields names (i + 1) rawEntity
       (case rawEntity (''f'' @ string_of_nat i) of
          None \<Rightarrow> cleanObject
        | Some v \<Rightarrow> cleanObject(fieldName \<mapsto> v))"

text \<open>The truth value of a property: a text that is not empty.\<close>

fun truthy_field :: "field_value option \<Rightarrow> bool" where
  "truthy_field (Some (Str s)) = (s \<noteq> [])"
| "truthy_field v = False"

text \<open>\<^verbatim>\<open>String(v)\<close> of a truthy property.\<close>

fun String_field :: "field_value option \<Rightarrow> string" where
  "String_field (Some (Str s)) = s"
| "String_field v = ''undefined''"

definition map_entity :: "string list \<Rightarrow> nat \<Rightarrow> raw_entity \<Rightarrow> clean_object" where
  "map_entity fieldNames index rawEntity =
     (let cleanObject = fill_fields fieldNames 0 rawEntity Map.empty
      in cleanObject(''_id'' \<mapsto>
           Str (if truthy_field (cleanObject ''CODPROD'') then String_field (cleanObject ''CODPROD'')
                else string_of_nat index)))"

text \<open>
  A response without metadata raises a TypeError. A member \<^verbatim>\<open>entity\<close> that is not an array is
  wrapped in a one-element array, also when it is missing (\<open>NoEntity\<close>): then reading the
  first slot of the row raises a TypeError, and with an empty list of field names no slot
  is read and the result is the one record \<^verbatim>\<open>{ _id: '0' }\<close>.
\<close>

definition mapearEntidades :: "entities \<Rightarrow> js_error + clean_object list" where
  "mapearEntidades ents =
     (case metadata ents of
        None \<Rightarrow> Inl (new_Error TypeErrorMsg)
      | Some fieldNames \<Rightarrow>
          (case entity ents of
             NoEntity \<Rightarrow>
               if fieldNames = [] then Inr [map_entity fieldNames 0 Map.empty]
               else Inl (new_Error TypeErrorMsg)
           | Single rawEntity \<Rightarrow> Inr [map_entity fieldNames 0 rawEntity]
           | Many entityArray \<Rightarrow>
               Inr (map (\<lambda>(index, rawEntity). map_entity fieldNames index rawEntity)
                      (enumerate 0 entityArray))))"

section \<open>The upstream and the state of the process\<close>

text \<open>
  A call of the HTTP client resolves with the data of the response or rejects with an
  error.
\<close>

datatype 'a axios = Resolved 'a | Rejected js_error

text \<open>The data of a login response: the members \<^verbatim>\<open>bearerToken\<close> and \<^verbatim>\<open>token\<close>.\<close>

record login_data =
  bearerToken :: "string option"
  token :: "string option"

text \<open>
  The data of a price response is the member \<^verbatim>\<open>produtos\<close>: \<open>None\<close> when it is missing or
  not an array, else its elements, each \<^verbatim>\<open>null\<close> or an object with its \<^verbatim>\<open>valor\<close> as text
  (\<open>None\<close> when the object has none).
\<close>

datatype preco_item = NullItem | Item "string option"

type_synonym precos_data = "preco_item list option"

text \<open>The data set of a \<^verbatim>\<open>loadRecords\<close> request (\<open>row_limit\<close> is its member \<^verbatim>\<open>limit\<close>).\<close>

record dataSet =
  rootEntity :: string
  offsetPage :: string
  row_limit :: "string option"
  criteria :: "string option"

text \<open>What the process does to the outside, in order.\<close>

datatype event =
    Login
  | Sleep nat
  | Post string dataSet
  | Get string string

text \<open>
  The upstream is a parameter: the result of the \<open>n\<close>-th login call, of the \<open>n\<close>-th
  \<^verbatim>\<open>loadRecords\<close> call (the member \<^verbatim>\<open>responseBody.entities\<close> of its data, \<open>None\<close> when the
  data has none), of the \<open>n\<close>-th price call, and the \<open>n\<close>-th reading of the clock.
\<close>

record env =
  login_resp :: "nat \<Rightarrow> login_data axios"
  post_resp :: "nat \<Rightarrow> entities option axios"
  get_resp :: "nat \<Rightarrow> precos_data axios"
  clock :: "nat \<Rightarrow> int"

text \<open>The result of a stock lookup, and the values that the cache of the service holds.\<close>

record estoque_resultado =
  estoques :: "clean_object list"
  total_estoques :: nat
  estoqueTotal :: jsnum

datatype jsval = VNum jsnum | VEstoque estoque_resultado

text \<open>
  The state: the module variable \<^verbatim>\<open>cachedToken\<close>, the store of \<^verbatim>\<open>cacheService\<close>, how many
  login, \<^verbatim>\<open>loadRecords\<close> and price calls were made and how often the clock was read, and
  the events so far. A call runs to its end before the next one starts, but for the two
  lookups that the batch endpoint awaits together (see there); requests of other callers
  that interleave with them are not part of this model.
\<close>

record world =
  cachedToken :: "string option"
  cache :: "jsval cache"
  logins :: nat
  posts :: nat
  gets :: nat
  ticks :: nat
  trace :: "event list"

definition sleep :: "nat \<Rightarrow> world \<Rightarrow> world" where
  "sleep ms w = w\<lparr>trace := trace w @ [Sleep ms]\<rparr>"

definition post_login :: "env \<Rightarrow> world \<Rightarrow> login_data axios \<times> world" where
  "post_login env w =
     (login_resp env (logins w), w\<lparr>logins := logins w + 1, trace := trace w @ [Login]\<rparr>)"

definition axios_post :: "env \<Rightarrow> string \<Rightarrow> dataSet \<Rightarrow> world \<Rightarrow> entities option axios \<times> world" where
  "axios_post env tok ds w =
     (post_resp env (posts w), w\<lparr>posts := posts w + 1, trace := trace w @ [Post tok ds]\<rparr>)"

definition axios_get :: "env \<Rightarrow> string \<Rightarrow> string \<Rightarrow> world \<Rightarrow> precos_data axios \<times> world" where
  "axios_get env tok codProd w =
     (get_resp env (gets w), w\<lparr>gets := gets w + 1, trace := trace w @ [Get tok codProd]\<rparr>)"

definition Date_now :: "env \<Rightarrow> world \<Rightarrow> int \<times> world" where
  "Date_now env w = (clock env (ticks w), w\<lparr>ticks := ticks w + 1\<rparr>)"

text \<open>\<^verbatim>\<open>cacheService.get\<close> and \<^verbatim>\<open>cacheService.set\<close> on the store of the state; \<^verbatim>\<open>get\<close> reads
  the clock only when it finds an entry.\<close>

definition cacheService_get :: "env \<Rightarrow> string \<Rightarrow> world \<Rightarrow> jsval option \<times> world" where
  "cacheService_get env key w =
     (case map_of (cache w) key of
        None \<Rightarrow> (None, w)
      | Some entry \<Rightarrow>
          let (now, w1) = Date_now env w;
              (v, c) = cache_get now key (cache w1)
          in (v, w1\<lparr>cache := c\<rparr>))"

definition cacheService_set :: "env \<Rightarrow> string \<Rightarrow> jsval \<Rightarrow> int \<Rightarrow> world \<Rightarrow> world" where
  "cacheService_set env key v t w =
     (let (now, w1) = Date_now env w
      in w1\<lparr>cache := cache_set now key v (Some t) (cache w1)\<rparr>)"

section \<open>The token manager (obterToken)\<close>

text \<open>The truth value of an optional text: present and not empty.\<close>

definition truthy_text :: "string option \<Rightarrow> bool" where
  "truthy_text t = (case t of None \<Rightarrow> False | Some s \<Rightarrow> s \<noteq> [])"

text \<open>\<^verbatim>\<open>resposta.data.bearerToken || resposta.data.token\<close>, and the error of the \<^verbatim>\<open>try\<close> block
  when that is falsy.\<close>

definition login_token :: "login_data \<Rightarrow> js_error + string" where
  "login_token d =
     (case (if truthy_text (bearerToken d) then bearerToken d else token d) of
        None \<Rightarrow> Inl (new_Error LoginSemToken)
      | Some tok \<Rightarrow> if tok = [] then Inl (new_Error LoginSemToken) else Inr tok)"

text \<open>\<^verbatim>\<open>erro.response?.data?.error || erro.message\<close>.\<close>

definition error_or_message :: "js_error \<Rightarrow> msg" where
  "error_or_message erro =
     (case data_error erro of
        None \<Rightarrow> message erro
      | Some e \<Rightarrow> if e = [] then message erro else Text e)"

definition MAX_RETRIES_token :: nat where
  "MAX_RETRIES_token = 3"

definition RETRY_DELAY :: nat where
  "RETRY_DELAY = 1000"

text \<open>The text of a truthy optional text.\<close>

definition text_of :: "string option \<Rightarrow> string" where
  "text_of t = (case t of None \<Rightarrow> [] | Some s \<Rightarrow> s)"

text \<open>
  How the \<^verbatim>\<open>try\<close> block of \<^verbatim>\<open>obterToken\<close> ends for a result of the login call: with the
  token, or with the error that the \<^verbatim>\<open>catch\<close> block receives (the rejection of the call, or
  the error for a response without token).
\<close>

definition login_outcome :: "login_data axios \<Rightarrow> js_error + string" where
  "login_outcome resposta = (case resposta of Rejected erro \<Rightarrow> Inl erro | Resolved d \<Rightarrow> login_token d)"

text \<open>\<^verbatim>\<open>obterToken(retryCount)\<close>.\<close>

function obterToken :: "env \<Rightarrow> nat \<Rightarrow> world \<Rightarrow> (js_error + string) \<times> world" where
  "obterToken env retryCount w =
     (if truthy_text (cachedToken w) then (Inr (text_of (cachedToken w)), w)
      else
        case post_login env w of
          (resposta, w1) \<Rightarrow>
            (case login_outcome resposta of
               Inr tok \<Rightarrow> (Inr tok, w1\<lparr>cachedToken := Some tok\<rparr>)
             | Inl erro \<Rightarrow>
                 if status erro = Some 500 \<and> retryCount < MAX_RETRIES_token then
                   obterToken env (retryCount + 1) (sleep (RETRY_DELAY * (retryCount + 1)) w1)
                 else if status erro = Some 500 then
                   (Inl (new_Error SankhyaIndisponivel), w1\<lparr>cachedToken := None\<rparr>)
                 else
                   (Inl (new_Error (FalhaAutenticacao (error_or_message erro))),
                    w1\<lparr>cachedToken := None\<rparr>)))"
  by pat_completeness auto
termination
  by (relation "measure (\<lambda>(env, retryCount, w). MAX_RETRIES_token - retryCount)") auto

declare obterToken.simps [simp del]

section \<open>The authenticated request executor (fazerRequisicaoAutenticada)\<close>

definition is_401_403 :: "js_error \<Rightarrow> bool" where
  "is_401_403 erro = (status erro = Some 401 \<or> status erro = Some 403)"

text \<open>\<^verbatim>\<open>erro.response?.status >= 500\<close>: false when there is no response.\<close>

definition status_ge_500 :: "js_error \<Rightarrow> bool" where
  "status_ge_500 erro = (case status erro of None \<Rightarrow> False | Some n \<Rightarrow> n \<ge> 500)"

text \<open>\<^verbatim>\<open>erro.response?.data?.statusMessage || erro.message || "Erro na comunicacao com o
  servidor"\<close>; the empty text is the only falsy message.\<close>

definition request_error_message :: "js_error \<Rightarrow> msg" where
  "request_error_message erro =
     (if truthy_text (data_statusMessage erro) then Text (text_of (data_statusMessage erro))
      else if message erro \<noteq> Text [] then message erro
      else ErroComunicacao)"

definition MAX_RETRIES_request :: nat where
  "MAX_RETRIES_request = 2"

text \<open>The \<^verbatim>\<open>try\<close> block of the executor: the token, then the request with it.\<close>

definition request_attempt :: "env \<Rightarrow> dataSet \<Rightarrow> world \<Rightarrow> (js_error + entities option) \<times> world" where
  "request_attempt env ds w =
     (case obterToken env 0 w of
        (Inl erro, w1) \<Rightarrow> (Inl erro, w1)
      | (Inr tok, w1) \<Rightarrow>
          (case axios_post env tok ds w1 of
             (Rejected erro, w2) \<Rightarrow> (Inl erro, w2)
           | (Resolved d, w2) \<Rightarrow> (Inr d, w2)))"

function fazerRequisicaoAutenticada ::
  "env \<Rightarrow> dataSet \<Rightarrow> nat \<Rightarrow> world \<Rightarrow> (js_error + entities option) \<times> world" where
  "fazerRequisicaoAutenticada env ds retryCount w =
     (case request_attempt env ds w of
        (Inr d, w2) \<Rightarrow> (Inr d, w2)
      | (Inl erro, w2) \<Rightarrow>
          if is_401_403 erro then
            (if retryCount < 1 then
               fazerRequisicaoAutenticada env ds (retryCount + 1) (sleep 500 (w2\<lparr>cachedToken := None\<rparr>))
             else (Inl (new_Error SessaoExpirada), w2\<lparr>cachedToken := None\<rparr>))
          else if (code erro = Some ''ECONNABORTED'' \<or> code erro = Some ''ENOTFOUND'' \<or> status_ge_500 erro)
                  \<and> retryCount < MAX_RETRIES_request then
            fazerRequisicaoAutenticada env ds (retryCount + 1) (sleep (RETRY_DELAY * (retryCount + 1)) w2)
          else if code erro = Some ''ECONNABORTED'' then (Inl (new_Error TempoExcedido), w2)
          else if status_ge_500 erro then (Inl (new_Error ServicoIndisponivel), w2)
          else (Inl (new_Error (request_error_message erro)), w2))"
  by pat_completeness auto
termination
  by (relation "measure (\<lambda>(env, ds, retryCount, w). MAX_RETRIES_request - retryCount)")
    (auto simp: MAX_RETRIES_request_def)

declare fazerRequisicaoAutenticada.simps [simp del]

section \<open>Price lookup (buscarPrecoProduto)\<close>

text \<open>\<^verbatim>\<open>parseFloat\<close> of a member that may be missing: \<^verbatim>\<open>undefined\<close> reads as \<^verbatim>\<open>NaN\<close>.\<close>

definition parseFloat_member :: "string option \<Rightarrow> jsnum" where
  "parseFloat_member v = (case v of None \<Rightarrow> NaN | Some s \<Rightarrow> parseFloat s)"

text \<open>\<^verbatim>\<open>x || 0\<close> on a number.\<close>

definition num_or_zero :: "jsnum \<Rightarrow> jsnum" where
  "num_or_zero x = (if truthy_num x then x else Fin 0)"

text \<open>
  The price of a response: 0 unless \<^verbatim>\<open>produtos\<close> is an array that is not empty, else
  \<^verbatim>\<open>parseFloat(produtos[0].valor) || 0\<close>; reading \<^verbatim>\<open>valor\<close> of \<^verbatim>\<open>null\<close> raises a TypeError.
\<close>

definition extract_preco :: "precos_data \<Rightarrow> js_error + jsnum" where
  "extract_preco d =
     (case d of
        None \<Rightarrow> Inr (Fin 0)
      | Some [] \<Rightarrow> Inr (Fin 0)
      | Some (NullItem # rest) \<Rightarrow> Inl (new_Error TypeErrorMsg)
      | Some (Item valor # rest) \<Rightarrow> Inr (num_or_zero (parseFloat_member valor)))"

definition MAX_RETRIES_preco :: nat where
  "MAX_RETRIES_preco = 1"

text \<open>The \<^verbatim>\<open>try\<close> block of the price lookup: the token, the request, the price, and the
  write to the cache with a ttl of 10 minutes.\<close>

definition preco_attempt :: "env \<Rightarrow> string \<Rightarrow> world \<Rightarrow> (js_error + jsnum) \<times> world" where
  "preco_attempt env codProd w =
     (case obterToken env 0 w of
        (Inl erro, w1) \<Rightarrow> (Inl erro, w1)
      | (Inr tok, w1) \<Rightarrow>
          (case axios_get env tok codProd w1 of
             (Rejected erro, w2) \<Rightarrow> (Inl erro, w2)
           | (Resolved d, w2) \<Rightarrow>
               (case extract_preco d of
                  Inl erro \<Rightarrow> (Inl erro, w2)
                | Inr preco \<Rightarrow>
                    (Inr preco,
                     cacheService_set env (''preco:'' @ codProd) (VNum preco) (10 * 60 * 1000) w2))))"

function buscarPrecoProduto :: "env \<Rightarrow> string \<Rightarrow> nat \<Rightarrow> world \<Rightarrow> (js_error + jsval) \<times> world" where
  "buscarPrecoProduto env codProd retryCount w =
     (case cacheService_get env (''preco:'' @ codProd) w of
        (Some cachedPrice, w0) \<Rightarrow> (Inr cachedPrice, w0)
      | (None, w0) \<Rightarrow>
          (case preco_attempt env codProd w0 of
             (Inr preco, w2) \<Rightarrow> (Inr (VNum preco), w2)
           | (Inl erro, w2) \<Rightarrow>
               if is_401_403 erro \<and> retryCount < 1 then
                 buscarPrecoProduto env codProd (retryCount + 1) (sleep 500 (w2\<lparr>cachedToken := None\<rparr>))
               else
                 let w3 = (if is_401_403 erro then w2\<lparr>cachedToken := None\<rparr> else w2) in
                 if (code erro = Some ''ECONNABORTED'' \<or> status_ge_500 erro)
                    \<and> retryCount < MAX_RETRIES_preco then
                   buscarPrecoProduto env codProd (retryCount + 1) (sleep 500 w3)
                 else (Inr (VNum (Fin 0)), w3)))"
  by pat_completeness auto
termination
  by (relation "measure (\<lambda>(env, codProd, retryCount, w). MAX_RETRIES_preco - retryCount)")
    (auto simp: MAX_RETRIES_preco_def)

declare buscarPrecoProduto.simps [simp del]

section \<open>Stock lookup (consultarEstoqueProduto)\<close>

text \<open>The single quote, for the filter expressions.\<close>

definition quote :: string where
  "quote = [CHR 0x27]"

definition estoque_dataSet :: "string \<Rightarrow> string \<Rightarrow> dataSet" where
  "estoque_dataSet codProd searchLocal =
     \<lparr>rootEntity = ''Estoque'', offsetPage = ''0'', row_limit = None,
      criteria = Some (''CODPROD = '' @ codProd @
        (if js_trim searchLocal \<noteq> [] then '' AND CODLOCAL LIKE '' @ quote @ ''%'' @ js_trim searchLocal @ ''%'' @ quote
         else []))\<rparr>"

text \<open>\<^verbatim>\<open>parseFloat(estoque.ESTOQUE || '0')\<close>.\<close>

definition quantidade :: "clean_object \<Rightarrow> jsnum" where
  "quantidade estoque =
     parseFloat (if truthy_field (estoque ''ESTOQUE'') then String_field (estoque ''ESTOQUE'') else ''0'')"

text \<open>The \<^verbatim>\<open>reduce\<close> over the normalized rows, from 0.\<close>

definition somar_estoque :: "clean_object list \<Rightarrow> jsnum" where
  "somar_estoque lista = foldl (\<lambda>acc estoque. js_add acc (quantidade estoque)) (Fin 0) lista"

definition estoque_vazio :: estoque_resultado where
  "estoque_vazio = \<lparr>estoques = [], total_estoques = 0, estoqueTotal = Fin 0\<rparr>"

definition consultarEstoqueProduto ::
  "env \<Rightarrow> string \<Rightarrow> string \<Rightarrow> world \<Rightarrow> (js_error + jsval) \<times> world" where
  "consultarEstoqueProduto env codProd searchLocal w =
     (let cacheKey = ''estoque:'' @ codProd @ '':'' @ searchLocal in
      case cacheService_get env cacheKey w of
        (Some cachedEstoque, w0) \<Rightarrow> (Inr cachedEstoque, w0)
      | (None, w0) \<Rightarrow>
          (case fazerRequisicaoAutenticada env (estoque_dataSet codProd searchLocal) 0 w0 of
             (Inl erro, w1) \<Rightarrow> (Inl erro, w1)
           | (Inr None, w1) \<Rightarrow> (Inr (VEstoque estoque_vazio), w1)
           | (Inr (Some ents), w1) \<Rightarrow>
               if entity ents = NoEntity then (Inr (VEstoque estoque_vazio), w1)
               else
                 (case mapearEntidades ents of
                    Inl erro \<Rightarrow> (Inl erro, w1)
                  | Inr listaEstoquesLimpa \<Rightarrow>
                      let resultado =
                            \<lparr>estoques = listaEstoquesLimpa,
                             total_estoques = length listaEstoquesLimpa,
                             estoqueTotal = somar_estoque listaEstoquesLimpa\<rparr>
                      in (Inr (VEstoque resultado),
                          cacheService_set env cacheKey (VEstoque resultado) (5 * 60 * 1000) w1))))"

section \<open>Product listing (consultarProdutos)\<close>

definition produtos_dataSet :: "int \<Rightarrow> int \<Rightarrow> string \<Rightarrow> string \<Rightarrow> dataSet" where
  "produtos_dataSet page pageSize searchName searchCode =
     (let filters =
            (if js_trim searchCode \<noteq> [] then [''CODPROD = '' @ js_trim searchCode] else []) @
            (if js_trim searchName \<noteq> [] then
               [''DESCRPROD LIKE '' @ quote @ ''%'' @ toUpperCase (js_trim searchName) @ ''%'' @ quote]
             else [])
      in \<lparr>rootEntity = ''Produto'',
          offsetPage = string_of_int ((page - 1) * pageSize),
          row_limit = Some (string_of_int pageSize),
          criteria =
            (case filters of
               [] \<Rightarrow> None
             | [a] \<Rightarrow> Some a
             | a # b # rest \<Rightarrow> Some (a @ '' AND '' @ b))\<rparr>)"

text \<open>The page that the listing returns.\<close>

record pagina =
  produtos :: "clean_object list"
  total_produtos :: jsnum
  page_no :: int
  page_size :: int
  totalPages :: jsnum

definition pagina_vazia :: "int \<Rightarrow> int \<Rightarrow> pagina" where
  "pagina_vazia page pageSize =
     \<lparr>produtos = [], total_produtos = Fin 0, page_no = page, page_size = pageSize, totalPages = Fin 0\<rparr>"

text \<open>\<^verbatim>\<open>lista.slice(0, pageSize)\<close>: a negative end counts from the end of the list.\<close>

definition slice0 :: "'a list \<Rightarrow> int \<Rightarrow> 'a list" where
  "slice0 xs n = (if n < 0 then take (nat (int (length xs) + n)) xs else take (nat n) xs)"

text \<open>\<^verbatim>\<open>{ ...produto, ESTOQUE: '0', VLRCOMERC: produto.VLRCOMERC || '0' }\<close>.\<close>

definition com_estoque :: "clean_object \<Rightarrow> clean_object" where
  "com_estoque produto =
     produto(''ESTOQUE'' \<mapsto> Str ''0'',
             ''VLRCOMERC'' \<mapsto>
               (if truthy_field (produto ''VLRCOMERC'') then Str (String_field (produto ''VLRCOMERC''))
                else Str ''0''))"

definition consultarProdutos ::
  "env \<Rightarrow> int \<Rightarrow> int \<Rightarrow> string \<Rightarrow> string \<Rightarrow> world \<Rightarrow> (js_error + pagina) \<times> world" where
  "consultarProdutos env page pageSize searchName searchCode w =
     (case fazerRequisicaoAutenticada env (produtos_dataSet page pageSize searchName searchCode) 0 w of
        (Inl erro, w1) \<Rightarrow> (Inl erro, w1)
      | (Inr None, w1) \<Rightarrow> (Inr (pagina_vazia page pageSize), w1)
      | (Inr (Some ents), w1) \<Rightarrow>
          if entity ents = NoEntity then (Inr (pagina_vazia page pageSize), w1)
          else
            (case mapearEntidades ents of
               Inl erro \<Rightarrow> (Inl erro, w1)
             | Inr lista \<Rightarrow>
                 let listaProdutosLimpa =
                       (if int (length lista) > pageSize then slice0 lista pageSize else lista);
                     produtosComEstoque = map com_estoque listaProdutosLimpa
                 in (Inr \<lparr>produtos = produtosComEstoque,
                          total_produtos =
                            (if truthy_text (total ents) then parseInt (text_of (total ents))
                             else Fin (rat_of_nat (length produtosComEstoque))),
                          page_no = page,
                          page_size = pageSize,
                          totalPages =
                            (if truthy_text (total ents) then
                               js_ceil (js_div (parseInt (text_of (total ents))) (Fin (rat_of_int pageSize)))
                             else Fin 1)\<rparr>,
                     w1)))"

section \<open>The batch endpoint (POST of batch-info)\<close>











section \<open>Notions used in the statements\<close>

text \<open>An attempt to log in that ends with an error of status 500.\<close>

definition failed_500 :: "js_error + string \<Rightarrow> bool" where
  "failed_500 r = (case r of Inl erro \<Rightarrow> status erro = Some 500 | Inr tok \<Rightarrow> False)"

text \<open>The events of \<open>k\<close> rounds of \<^verbatim>\<open>obterToken\<close> that fail and are retried, from the retry
  count \<open>rc\<close> on: a login call, then the delay of 1000 ms times the number of the attempt.\<close>

definition backoff_events :: "nat \<Rightarrow> nat \<Rightarrow> event list" where
  "backoff_events rc k = concat (map (\<lambda>j. [Login, Sleep (1000 * (rc + j + 1))]) [0..<k])"

subsection \<open>States and upstreams of the examples\<close>

text \<open>The state of a fresh process, and the error of a response with a status.\<close>

definition w_fresh :: world where
  "w_fresh = \<lparr>cachedToken = None, cache = [], logins = 0, posts = 0, gets = 0, ticks = 0, trace = []\<rparr>"

definition http_error :: "nat \<Rightarrow> string option \<Rightarrow> js_error" where
  "http_error st e = \<lparr>status = Some st, code = Some ''ERR_BAD_RESPONSE'',
     message = Text ''Request failed'', data_error = e, data_statusMessage = None\<rparr>"

text \<open>An upstream that answers every call with status 500.\<close>

definition env_none :: env where
  "env_none = \<lparr>login_resp = (\<lambda>n. Rejected (http_error 500 (Some ''boom''))),
     post_resp = (\<lambda>n. Rejected (http_error 500 None)),
     get_resp = (\<lambda>n. Rejected (http_error 500 None)),
     clock = (\<lambda>n. 0)\<rparr>"

text \<open>Logins that fail twice with status 500 and then give the token \<^verbatim>\<open>T\<close>; logins that
  are refused with status 401.\<close>

definition env_login_third :: env where
  "env_login_third = env_none\<lparr>login_resp := (\<lambda>n. if n < 2 then Rejected (http_error 500 None)
       else Resolved \<lparr>bearerToken = Some ''T'', token = None\<rparr>)\<rparr>"

definition env_login_denied :: env where
  "env_login_denied = env_none\<lparr>login_resp := (\<lambda>n. Rejected (http_error 401 (Some ''bad credentials'')))\<rparr>"

text \<open>A data set, a state with the cached credential \<^verbatim>\<open>T\<close>, and upstreams whose
  \<^verbatim>\<open>loadRecords\<close> calls answer 503 then 401, 401 then a body without entities, and 401 then
  403; the logins of the last two give the token \<^verbatim>\<open>T2\<close>.\<close>

definition ds0 :: dataSet where
  "ds0 = \<lparr>rootEntity = ''Produto'', offsetPage = ''0'', row_limit = None, criteria = None\<rparr>"

definition w_T :: world where
  "w_T = w_fresh\<lparr>cachedToken := Some ''T''\<rparr>"

definition env_503_401 :: env where
  "env_503_401 = env_none\<lparr>post_resp := (\<lambda>n. if n = 0 then Rejected (http_error 503 None)
       else Rejected (http_error 401 None))\<rparr>"

definition env_401_ok :: env where
  "env_401_ok = env_none\<lparr>
     login_resp := (\<lambda>n. Resolved \<lparr>bearerToken = Some ''T2'', token = None\<rparr>),
     post_resp := (\<lambda>n. if n = 0 then Rejected (http_error 401 None) else Resolved None)\<rparr>"

definition env_401_401 :: env where
  "env_401_401 = env_none\<lparr>
     login_resp := (\<lambda>n. Resolved \<lparr>bearerToken = Some ''T2'', token = None\<rparr>),
     post_resp := (\<lambda>n. Rejected (http_error (if n = 0 then 401 else 403) None))\<rparr>"

subsection \<open>Notions for the price lookup\<close>

text \<open>The errors after which the first attempt of the price lookup is repeated.\<close>

definition retryable :: "js_error \<Rightarrow> bool" where
  "retryable erro = (is_401_403 erro \<or> code erro = Some ''ECONNABORTED'' \<or> status_ge_500 erro)"

text \<open>
  What a price lookup that misses the cache ends with: a number, after at least one call
  to the upstream, and either the number is 0 and the store is as it was, or the number
  is the price of a response that resolved and the store has it under the key of the
  code with a ttl of 600000 ms.
\<close>

definition miss_outcome :: "env \<Rightarrow> string \<Rightarrow> world \<Rightarrow> (js_error + jsval) \<times> world \<Rightarrow> bool" where
  "miss_outcome env cod w res =
     (\<exists>p w'. res = (Inr (VNum p), w') \<and> logins w + gets w < logins w' + gets w'
        \<and> ((p = Fin 0 \<and> cache w' = cache w)
           \<or> (\<exists>n d t. get_resp env n = Resolved d \<and> extract_preco d = Inr p
                \<and> cache w' = cache_set t (''preco:'' @ cod) (VNum p) (Some 600000) (cache w))))"

text \<open>An upstream whose price calls answer with the price \<^verbatim>\<open>"12.50"\<close>.\<close>

definition env_preco :: env where
  "env_preco = env_none\<lparr>get_resp := (\<lambda>n. Resolved (Some [Item (Some ''12.50'')]))\<rparr>"

text \<open>Upstreams whose \<^verbatim>\<open>loadRecords\<close> calls answer with an empty array of entities, with a
  body without \<^verbatim>\<open>entities\<close>, and with \<^verbatim>\<open>entities\<close> without the member \<^verbatim>\<open>entity\<close>.\<close>

definition env_empty_array :: env where
  "env_empty_array = env_none\<lparr>post_resp := (\<lambda>n. Resolved (Some
       \<lparr>metadata = Some [''CODPROD'', ''DESCRPROD''], entity = Many [], total = None\<rparr>))\<rparr>"

definition env_no_entities :: env where
  "env_no_entities = env_none\<lparr>post_resp := (\<lambda>n. Resolved None)\<rparr>"

definition env_no_entity :: env where
  "env_no_entity = env_none\<lparr>post_resp := (\<lambda>n. Resolved (Some
       \<lparr>metadata = None, entity = NoEntity, total = Some ''0''\<rparr>))\<rparr>"

text \<open>A stock response with two rows whose \<^verbatim>\<open>ESTOQUE\<close> are the given texts, and the
  upstream that answers every \<^verbatim>\<open>loadRecords\<close> call with it.\<close>

definition estoque_entities :: "string \<Rightarrow> string \<Rightarrow> entities" where
  "estoque_entities a b =
     \<lparr>metadata = Some [''ESTOQUE'', ''CODPROD''],
      entity = Many [[''f0'' \<mapsto> Str a, ''f1'' \<mapsto> Str ''10''], [''f0'' \<mapsto> Str b, ''f1'' \<mapsto> Str ''10'']],
      total = None\<rparr>"

definition env_estoque :: "string \<Rightarrow> string \<Rightarrow> env" where
  "env_estoque a b = env_none\<lparr>post_resp := (\<lambda>n. Resolved (Some (estoque_entities a b)))\<rparr>"

subsection \<open>Notions for the cache\<close>

text \<open>A pattern that is not empty and has none of the characters that a glob-style
  pattern reads specially: the star, the question mark, the opening bracket and the
  backslash.\<close>

definition plain :: "string \<Rightarrow> bool" where
  "plain p = (p \<noteq> [] \<and> list_all (\<lambda>c. c \<notin> set (CHR 0x5C # ''*?['')) p)"

subsection \<open>Notions for the batch endpoint\<close>






section \<open>Properties of the cache\<close>

lemma js_includes_sublist: "js_includes k p = sublist p k"
  by (induction k) (auto simp: sublist_Cons_right)

lemma invalidate_loop_filter:
  "invalidate_loop p ks (c, n) =
     (filter (\<lambda>e. \<not> (fst e \<in> set ks \<and> js_includes (fst e) p)) c,
      n + length (filter (\<lambda>k. js_includes k p) ks))"
proof (induction ks arbitrary: c n)
  case Nil
  show ?case by simp
next
  case (Cons k ks)
  have del: "AList.delete k c = filter (\<lambda>e. fst e \<noteq> k) c"
    by (auto simp: AList.delete_eq intro: filter_cong)
  show ?case
  proof (cases "js_includes k p")
    case True
    have "filter (\<lambda>e. \<not> (fst e \<in> set ks \<and> js_includes (fst e) p)) (filter (\<lambda>e. fst e \<noteq> k) c)
          = filter (\<lambda>e. \<not> (fst e \<in> set (k # ks) \<and> js_includes (fst e) p)) c"
      using True by (auto intro: filter_cong)
    with True show ?thesis by (simp add: Cons.IH del)
  next
    case False
    have "filter (\<lambda>e. \<not> (fst e \<in> set ks \<and> js_includes (fst e) p)) c
          = filter (\<lambda>e. \<not> (fst e \<in> set (k # ks) \<and> js_includes (fst e) p)) c"
      using False by (auto intro: filter_cong)
    with False show ?thesis by (simp add: Cons.IH)
  qed
qed


lemma map_of_cache_set: "map_of (cache_set t0 k v t c) k = Some \<lparr>data = v, timestamp = t0, ttl = ttl_or_default t\<rparr>"
  by (simp add: cache_set_def update_conv')

lemma cache_get_after_set_general:
  "fst (cache_get now k (cache_set t0 k v t c)) =
     (if now - t0 > ttl_or_default t then None else Some v)"
  by (simp add: cache_get_def map_of_cache_set Let_def)

lemma cache_get_fresh:
  "fst (cache_get now k c) = Some w \<Longrightarrow>
     \<exists>e. map_of c k = Some e \<and> data e = w \<and> now - timestamp e \<le> ttl e"
  by (auto simp: cache_get_def Let_def split: option.splits if_splits)

text \<open>
  C1 (as amended). A value stored with a ttl \<open>t\<close> other than 0 is returned by \<^verbatim>\<open>get\<close> as long as
  at most \<open>t\<close> milliseconds have passed since the \<^verbatim>\<open>set\<close>, and \<^verbatim>\<open>null\<close> is returned once
  more than \<open>t\<close> have passed. A ttl of 0, like an omitted ttl, stands for the default of
  300000 ms. Hence, whatever the store \<open>c'\<close> holds, a value that \<^verbatim>\<open>get\<close> returns is no older
  than the ttl that is stored with it.
\<close>

theorem cache_get_after_set:
  assumes "t \<noteq> 0"
  shows "fst (cache_get now k (cache_set t0 k v (Some t) c)) =
           (if now - t0 > t then None else Some v)
       \<and> fst (cache_get now k (cache_set t0 k v (Some 0) c)) =
           (if now - t0 > 300000 then None else Some v)
       \<and> fst (cache_get now k (cache_set t0 k v None c)) =
           (if now - t0 > 300000 then None else Some v)
       \<and> (fst (cache_get now k c') = Some v \<longrightarrow>
             (\<exists>e. map_of c' k = Some e \<and> data e = v \<and> now - timestamp e \<le> ttl e))"
  using assms cache_get_fresh [of now k c' v]
  by (simp add: cache_get_after_set_general ttl_or_default_def defaultTTL_def)

theorem cache_get_after_set_witness:
  "fst (cache_get 600000 ''preco:10'' (cache_set 0 ''preco:10'' (125::nat) (Some 600000) [])) = Some 125
   \<and> fst (cache_get 600001 ''preco:10'' (cache_set 0 ''preco:10'' (125::nat) (Some 600000) [])) = None"
  using cache_get_after_set [THEN conjunct1, of 600000 600000 "''preco:10''" 0 "125::nat" "[]"]
        cache_get_after_set [THEN conjunct1, of 600000 600001 "''preco:10''" 0 "125::nat" "[]"]
  by simp

text \<open>
  The claim as it was stated, for every ttl, fails at the ttl 0: one millisecond after
  \<^verbatim>\<open>set(k, v, 0)\<close> the ttl has elapsed, and \<^verbatim>\<open>get(k)\<close> still returns the value.
\<close>

theorem cache_get_ttl_zero_counterexample:
  "fst (cache_get 1 ''k'' (cache_set 0 ''k'' ''v'' (Some 0) [])) = Some ''v''"
  by (simp add: cache_get_def cache_set_def ttl_or_default_def defaultTTL_def)

lemma redis_glob_star: "redis_glob (CHR ''*'' # q) s = (\<exists>t. suffix t s \<and> redis_glob q t)"
proof (induction s)
  case Nil
  show ?case by simp
next
  case (Cons c s)
  show ?case using Cons.IH by (auto simp: suffix_Cons)
qed

lemma redis_glob_literal:
  "list_all (\<lambda>c. c \<notin> set (CHR 0x5C # ''*?['')) p \<Longrightarrow>
   redis_glob (p @ q) s = (\<exists>s'. s = p @ s' \<and> redis_glob q s')"
proof (induction p arbitrary: s)
  case Nil
  show ?case by simp
next
  case (Cons x p)
  then show ?case by (cases s) auto
qed

lemma redis_glob_contains:
  assumes "list_all (\<lambda>c. c \<notin> set (CHR 0x5C # ''*?['')) p"
  shows "redis_glob (CHR ''*'' # p @ ''*'') k = sublist p k"
proof -
  have e: "redis_glob ''*'' s" for s
    using redis_glob_star [of "[]" s] by auto
  show ?thesis
    by (auto simp: redis_glob_star redis_glob_literal [OF assms] e sublist_def suffix_def)
qed

lemma redis_branch_filter:
  "redis_branch calls p store =
     (if calls = Works
      then (length (filter (\<lambda>e. redis_glob (CHR ''*'' # p @ ''*'') (fst e)) store),
            filter (\<lambda>e. \<not> redis_glob (CHR ''*'' # p @ ''*'') (fst e)) store)
      else (0, store))"
proof (cases "calls = Works")
  case False
  then show ?thesis
    by (cases calls) (simp_all add: redis_branch_def Let_def del: redis_glob.simps)
next
  case True
  let ?g = "redis_glob (CHR ''*'' # p @ ''*'')"
  have d: "redis_del (redis_keys (CHR ''*'' # p @ ''*'') store) store = filter (\<lambda>e. \<not> ?g (fst e)) store"
    unfolding redis_del_def redis_keys_def by (rule filter_cong) auto
  have n: "length (redis_keys (CHR ''*'' # p @ ''*'') store) = length (filter (\<lambda>e. ?g (fst e)) store)"
    unfolding redis_keys_def by (simp add: length_filter_map [symmetric] comp_def del: redis_glob.simps)
  show ?thesis
  proof (cases "filter (\<lambda>e. ?g (fst e)) store = []")
    case e: True
    then have "filter (\<lambda>e. \<not> ?g (fst e)) store = store"
      by (simp add: filter_empty_conv filter_id_conv del: redis_glob.simps)
    with e True n show ?thesis
      by (simp add: redis_branch_def Let_def del: redis_glob.simps)
  next
    case e: False
    with n have "redis_keys (CHR ''*'' # p @ ''*'') store \<noteq> []"
      by (metis length_0_conv)
    with True n d show ?thesis
      by (simp add: redis_branch_def Let_def del: redis_glob.simps)
  qed
qed

lemma redis_invalidatePattern_stores:
  "redis_invalidatePattern calls p s =
     ((if useRedis s \<and> calls = Works
       then length (filter (\<lambda>e. redis_glob (CHR ''*'' # p @ ''*'') (fst e)) (redisStore s)) else 0)
      + length (filter (\<lambda>e. sublist p (fst e)) (memoryCache s)),
      s\<lparr>memoryCache := filter (\<lambda>e. \<not> sublist p (fst e)) (memoryCache s),
        redisStore := (if useRedis s \<and> calls = Works
                       then filter (\<lambda>e. \<not> redis_glob (CHR ''*'' # p @ ''*'') (fst e)) (redisStore s)
                       else redisStore s)\<rparr>)"
proof -
  have "filter (\<lambda>e. \<not> (fst e \<in> set (map fst (memoryCache s)) \<and> js_includes (fst e) p)) (memoryCache s) =
        filter (\<lambda>e. \<not> sublist p (fst e)) (memoryCache s)"
    by (rule filter_cong) (auto simp: js_includes_sublist)
  moreover have "length (filter (\<lambda>k. js_includes k p) (map fst (memoryCache s))) =
        length (filter (\<lambda>e. sublist p (fst e)) (memoryCache s))"
    by (simp add: js_includes_sublist length_filter_map [symmetric] comp_def)
  ultimately have
    "invalidate_loop p (map fst (memoryCache s)) (memoryCache s, n) =
       (filter (\<lambda>e. \<not> sublist p (fst e)) (memoryCache s),
        n + length (filter (\<lambda>e. sublist p (fst e)) (memoryCache s)))" for n
    by (simp only: invalidate_loop_filter)
  then show ?thesis
    by (simp add: redis_invalidatePattern_def redis_branch_filter del: redis_glob.simps)
qed

text \<open>
  C7. \<^verbatim>\<open>invalidatePattern(p)\<close> of \<^verbatim>\<open>CacheService\<close> returns the store without the entries whose
  key contains \<open>p\<close> as a (literal, contiguous) substring, every other entry as it was and
  where it was, and the number of entries it removed; a lookup afterwards finds nothing
  under a key that contains \<open>p\<close> and what was there under any other key. The in-process
  store of \<^verbatim>\<open>RedisCacheService\<close> is treated in the same way, whatever the Redis calls do.
  From the Redis store, when Redis is in use and its calls work, the entries go whose key
  matches the glob-style pattern \<^verbatim>\<open>*p*\<close>, and their number is added to the count; when a
  call fails, or Redis is not in use, the Redis store stays as it was and the count is
  that of the in-process store. For a plain \<open>p\<close> the keys that match \<^verbatim>\<open>*p*\<close> are the keys
  that contain \<open>p\<close>. For another \<open>p\<close> they are not: \<^verbatim>\<open>invalidatePattern('pre?o')\<close> removes
  the Redis entry under \<^verbatim>\<open>preco:10\<close>, whose key does not contain \<^verbatim>\<open>pre?o\<close>, and counts it.
\<close>

theorem invalidatePattern_both_stores:
  "snd (invalidatePattern p c) = filter (\<lambda>e. \<not> sublist p (fst e)) c
   \<and> fst (invalidatePattern p c) = length (filter (\<lambda>e. sublist p (fst e)) c)
   \<and> fst (invalidatePattern p c) = length c - length (snd (invalidatePattern p c))
   \<and> map_of (snd (invalidatePattern p c)) k = (if sublist p k then None else map_of c k)
   \<and> memoryCache (snd (redis_invalidatePattern calls p s)) =
        filter (\<lambda>e. \<not> sublist p (fst e)) (memoryCache s)
   \<and> useRedis (snd (redis_invalidatePattern calls p s)) = useRedis s
   \<and> redisStore (snd (redis_invalidatePattern calls p s)) =
        (if useRedis s \<and> calls = Works
         then filter (\<lambda>e. \<not> redis_glob (CHR ''*'' # p @ ''*'') (fst e)) (redisStore s)
         else redisStore s)
   \<and> fst (redis_invalidatePattern calls p s) =
        (if useRedis s \<and> calls = Works
         then length (filter (\<lambda>e. redis_glob (CHR ''*'' # p @ ''*'') (fst e)) (redisStore s))
         else 0)
        + length (filter (\<lambda>e. sublist p (fst e)) (memoryCache s))
   \<and> (plain p \<longrightarrow> redis_glob (CHR ''*'' # p @ ''*'') k = sublist p k)
   \<and> redis_invalidatePattern Works ''pre?o''
        \<lparr>memoryCache = [], redisStore = [(''preco:10'', e1), (''estoque:10:'', e2)], useRedis = True\<rparr>
      = (1, \<lparr>memoryCache = [], redisStore = [(''estoque:10:'', e2)], useRedis = True\<rparr>)
   \<and> \<not> sublist ''pre?o'' ''preco:10''"
proof -
  have s: "snd (invalidatePattern p c) = filter (\<lambda>e. \<not> sublist p (fst e)) c"
    by (auto simp: invalidatePattern_def invalidate_loop_filter js_includes_sublist intro: filter_cong)
  have f: "fst (invalidatePattern p c) = length (filter (\<lambda>e. sublist p (fst e)) c)"
    by (simp add: invalidatePattern_def invalidate_loop_filter js_includes_sublist length_filter_map [symmetric] comp_def)
  have l: "length (filter (\<lambda>e. sublist p (fst e)) c) = length c - length (filter (\<lambda>e. \<not> sublist p (fst e)) c)"
    using sum_length_filter_compl [of "\<lambda>e. sublist p (fst e)" c] by simp
  have m: "map_of (filter (\<lambda>e. \<not> sublist p (fst e)) c) k = (if sublist p k then None else map_of c k)"
    by (induction c) auto
  have g: "plain p \<longrightarrow> redis_glob (CHR ''*'' # p @ ''*'') k = sublist p k"
    using redis_glob_contains [of p k] by (simp add: plain_def del: redis_glob.simps)
  have n: "\<not> sublist ''pre?o'' ''preco:10''"
    by (simp add: js_includes_sublist [symmetric])
  have x: "redis_invalidatePattern Works ''pre?o''
        \<lparr>memoryCache = [], redisStore = [(''preco:10'', e1), (''estoque:10:'', e2)], useRedis = True\<rparr>
      = (1, \<lparr>memoryCache = [], redisStore = [(''estoque:10:'', e2)], useRedis = True\<rparr>)"
    by (simp add: redis_invalidatePattern_stores)
  show ?thesis
    unfolding s f l m
    using g n x by (simp add: redis_invalidatePattern_stores l del: redis_glob.simps)
qed

theorem invalidatePattern_both_stores_witness:
  "plain ''preco''
   \<and> redis_invalidatePattern Works ''preco''
        \<lparr>memoryCache = [(''preco:2'', \<lparr>data = 3::nat, timestamp = 0, ttl = 5\<rparr>)],
         redisStore = [(''preco:1'', \<lparr>data = 1, timestamp = 0, ttl = 5\<rparr>),
                       (''estoque:1:'', \<lparr>data = 2, timestamp = 0, ttl = 5\<rparr>)],
         useRedis = True\<rparr>
     = (2, \<lparr>memoryCache = [],
            redisStore = [(''estoque:1:'', \<lparr>data = 2, timestamp = 0, ttl = 5\<rparr>)],
            useRedis = True\<rparr>)
   \<and> invalidatePattern ''preco''
     [(''preco:1'', \<lparr>data = 1::nat, timestamp = 0, ttl = 5\<rparr>),
      (''estoque:1:'', \<lparr>data = 2, timestamp = 0, ttl = 5\<rparr>),
      (''p:preco'', \<lparr>data = 3, timestamp = 0, ttl = 5\<rparr>)]
   = (2, [(''estoque:1:'', \<lparr>data = 2, timestamp = 0, ttl = 5\<rparr>)])"
  using invalidatePattern_both_stores [of "''preco''"
     "[(''preco:1'', \<lparr>data = 1::nat, timestamp = 0, ttl = 5\<rparr>),
      (''estoque:1:'', \<lparr>data = 2, timestamp = 0, ttl = 5\<rparr>),
      (''p:preco'', \<lparr>data = 3, timestamp = 0, ttl = 5\<rparr>)]" "''preco:1''" Works
     "\<lparr>memoryCache = [(''preco:2'', \<lparr>data = 3::nat, timestamp = 0, ttl = 5\<rparr>)],
         redisStore = [(''preco:1'', \<lparr>data = 1, timestamp = 0, ttl = 5\<rparr>),
                       (''estoque:1:'', \<lparr>data = 2, timestamp = 0, ttl = 5\<rparr>)],
         useRedis = True\<rparr>" "\<lparr>data = 1::nat, timestamp = 0, ttl = 5\<rparr>"
     "\<lparr>data = 2::nat, timestamp = 0, ttl = 5\<rparr>"]
  by (simp add: js_includes_sublist [symmetric] prod_eq_iff plain_def)

section \<open>Properties of the record normalizer\<close>

lemma fill_fields_other: "n \<notin> set names \<Longrightarrow> fill_fields names i raw clean n = clean n"
  by (induction names arbitrary: i clean) (auto split: option.splits)

lemma fill_fields_nth:
  "distinct names \<Longrightarrow> j < length names \<Longrightarrow>
   fill_fields names i raw clean (names ! j) =
     (case raw (''f'' @ string_of_nat (i + j)) of None \<Rightarrow> clean (names ! j) | Some v \<Rightarrow> Some v)"
proof (induction names arbitrary: i j clean)
  case Nil
  then show ?case by simp
next
  case (Cons a names)
  show ?case
  proof (cases j)
    case 0
    with Cons.prems show ?thesis by (simp add: fill_fields_other split: option.splits)
  next
    case (Suc j')
    with Cons.prems have "a \<noteq> names ! j'" by auto
    with Suc Cons.prems Cons.IH [of j' "i + 1"] show ?thesis
      by (auto split: option.splits)
  qed
qed

lemma map_entity_id:
  "map_entity names index raw ''_id'' =
     Some (Str (case map_entity names index raw ''CODPROD'' of
                  Some (Str s) \<Rightarrow> if s = [] then string_of_nat index else s
                | _ \<Rightarrow> string_of_nat index))"
  by (simp add: map_entity_def Let_def split: option.splits field_value.splits)

lemma map_entity_field:
  "distinct names \<Longrightarrow> i < length names \<Longrightarrow> names ! i \<noteq> ''_id'' \<Longrightarrow>
     map_entity names index raw (names ! i) = raw (''f'' @ string_of_nat i)"
  by (simp add: map_entity_def Let_def fill_fields_nth split: option.splits)

lemma map_entity_absent:
  "n \<notin> set names \<Longrightarrow> n \<noteq> ''_id'' \<Longrightarrow> map_entity names index raw n = None"
  by (simp add: map_entity_def Let_def fill_fields_other)

text \<open>
  C6. A single entity is normalized as the one-element sequence of it. For a response with
  the (pairwise different) field names \<open>names\<close> and the rows \<open>rows\<close>, normalization gives one
  record per row, in order; the record of row \<open>j\<close> has under the \<open>i\<close>-th name what the row has
  in its slot \<^verbatim>\<open>f<i>\<close> and no property for a slot that the row lacks, no property under any
  other name, and \<^verbatim>\<open>_id\<close>: the text of its \<^verbatim>\<open>CODPROD\<close> when that is present (a text that is
  not empty), else the decimal text of the index \<open>j\<close>.
\<close>

theorem mapearEntidades_normalizes:
  assumes "distinct names"
  shows "mapearEntidades \<lparr>metadata = Some names, entity = Single r, total = t\<rparr> =
           mapearEntidades \<lparr>metadata = Some names, entity = Many [r], total = t\<rparr>
       \<and> (\<exists>rs. mapearEntidades \<lparr>metadata = Some names, entity = Many rows, total = t\<rparr> = Inr rs
             \<and> length rs = length rows
             \<and> (\<forall>j<length rows.
                  (\<forall>i<length names. names ! i \<noteq> ''_id'' \<longrightarrow>
                      (rs ! j) (names ! i) = (rows ! j) (''f'' @ string_of_nat i))
                \<and> (\<forall>n. n \<notin> set names \<and> n \<noteq> ''_id'' \<longrightarrow> (rs ! j) n = None)
                \<and> (rs ! j) ''_id'' =
                    Some (Str (case (rs ! j) ''CODPROD'' of
                                 Some (Str s) \<Rightarrow> if s = [] then string_of_nat j else s
                               | _ \<Rightarrow> string_of_nat j))))"
proof -
  let ?rs = "map (\<lambda>(index, rawEntity). map_entity names index rawEntity) (enumerate 0 rows)"
  have "mapearEntidades \<lparr>metadata = Some names, entity = Many rows, total = t\<rparr> = Inr ?rs"
    by (simp add: mapearEntidades_def)
  moreover have "length ?rs = length rows"
    by simp
  moreover have "\<forall>j<length rows.
       (\<forall>i<length names. names ! i \<noteq> ''_id'' \<longrightarrow>
           (?rs ! j) (names ! i) = (rows ! j) (''f'' @ string_of_nat i))
     \<and> (\<forall>n. n \<notin> set names \<and> n \<noteq> ''_id'' \<longrightarrow> (?rs ! j) n = None)
     \<and> (?rs ! j) ''_id'' =
         Some (Str (case (?rs ! j) ''CODPROD'' of
                      Some (Str s) \<Rightarrow> if s = [] then string_of_nat j else s
                    | _ \<Rightarrow> string_of_nat j))"
  proof (intro allI impI conjI)
    fix j i assume "j < length rows" "i < length names" "names ! i \<noteq> ''_id''"
    with assms show "(?rs ! j) (names ! i) = (rows ! j) (''f'' @ string_of_nat i)"
      by (simp add: nth_enumerate_eq map_entity_field)
  next
    fix j n assume "j < length rows" "n \<notin> set names \<and> n \<noteq> ''_id''"
    then show "(?rs ! j) n = None"
      by (simp add: nth_enumerate_eq map_entity_absent)
  next
    fix j assume "j < length rows"
    then show "(?rs ! j) ''_id'' =
         Some (Str (case (?rs ! j) ''CODPROD'' of
                      Some (Str s) \<Rightarrow> if s = [] then string_of_nat j else s
                    | _ \<Rightarrow> string_of_nat j))"
      by (simp add: nth_enumerate_eq map_entity_id [symmetric])
  qed
  moreover have "mapearEntidades \<lparr>metadata = Some names, entity = Single r, total = t\<rparr> =
           mapearEntidades \<lparr>metadata = Some names, entity = Many [r], total = t\<rparr>"
    by (simp add: mapearEntidades_def)
  ultimately show ?thesis by blast
qed

theorem mapearEntidades_normalizes_witness:
  "distinct [''A'', ''B'']
   \<and> mapearEntidades \<lparr>metadata = Some [''A'', ''B''],
        entity = Single [''f0'' \<mapsto> Str ''x'', ''f1'' \<mapsto> Str ''y''], total = None\<rparr>
     = Inr [[''A'' \<mapsto> Str ''x'', ''B'' \<mapsto> Str ''y'', ''_id'' \<mapsto> Str ''0'']]"
proof -
  have d: "distinct [''A'', ''B'']" by simp
  from mapearEntidades_normalizes [OF d, of "[''f0'' \<mapsto> Str ''x'', ''f1'' \<mapsto> Str ''y'']" None
       "[[''f0'' \<mapsto> Str ''x'', ''f1'' \<mapsto> Str ''y'']]"]
  obtain rs where rs: "mapearEntidades \<lparr>metadata = Some [''A'', ''B''],
        entity = Single [''f0'' \<mapsto> Str ''x'', ''f1'' \<mapsto> Str ''y''], total = None\<rparr> = Inr rs"
      and len: "length rs = 1"
      and a: "(rs ! 0) ''A'' = Some (Str ''x'')"
      and b: "(rs ! 0) ''B'' = Some (Str ''y'')"
      and other: "\<And>n. n \<notin> set [''A'', ''B''] \<and> n \<noteq> ''_id'' \<Longrightarrow> (rs ! 0) n = None"
      and i: "(rs ! 0) ''_id'' = Some (Str (case (rs ! 0) ''CODPROD'' of
                                 Some (Str s) \<Rightarrow> if s = [] then string_of_nat 0 else s
                               | _ \<Rightarrow> string_of_nat 0))"
    by (auto simp: string_of_nat.simps digit_char_def nth_Cons' less_Suc_eq)
  have c: "(rs ! 0) ''CODPROD'' = None" by (rule other) simp
  have "rs ! 0 = [''A'' \<mapsto> Str ''x'', ''B'' \<mapsto> Str ''y'', ''_id'' \<mapsto> Str ''0'']"
  proof (rule ext)
    fix n
    show "(rs ! 0) n = [''A'' \<mapsto> Str ''x'', ''B'' \<mapsto> Str ''y'', ''_id'' \<mapsto> Str ''0''] n"
      using a b i c other [of n] by (auto simp: string_of_nat.simps digit_char_def)
  qed
  with len have "rs = [[''A'' \<mapsto> Str ''x'', ''B'' \<mapsto> Str ''y'', ''_id'' \<mapsto> Str ''0'']]"
    by (cases rs) auto
  with rs d show ?thesis by simp
qed

section \<open>Properties of the token manager\<close>

lemma obterToken_cached:
  "truthy_text (cachedToken w) \<Longrightarrow> obterToken env rc w = (Inr (text_of (cachedToken w)), w)"
  by (simp add: obterToken.simps)

lemma obterToken_success:
  "\<not> truthy_text (cachedToken w) \<Longrightarrow> login_outcome (login_resp env (logins w)) = Inr tok \<Longrightarrow>
   obterToken env rc w =
     (Inr tok, w\<lparr>cachedToken := Some tok, logins := logins w + 1, trace := trace w @ [Login]\<rparr>)"
  by (simp add: obterToken.simps post_login_def)

lemma obterToken_retry:
  "\<not> truthy_text (cachedToken w) \<Longrightarrow> failed_500 (login_outcome (login_resp env (logins w))) \<Longrightarrow> rc < 3 \<Longrightarrow>
   obterToken env rc w =
     obterToken env (rc + 1)
       (w\<lparr>logins := logins w + 1, trace := trace w @ [Login, Sleep (1000 * (rc + 1))]\<rparr>)"
  by (subst obterToken.simps)
     (auto simp: post_login_def failed_500_def sleep_def MAX_RETRIES_token_def RETRY_DELAY_def split: sum.splits)

lemma obterToken_exhausted:
  "\<not> truthy_text (cachedToken w) \<Longrightarrow> failed_500 (login_outcome (login_resp env (logins w))) \<Longrightarrow> 3 \<le> rc \<Longrightarrow>
   obterToken env rc w =
     (Inl (new_Error SankhyaIndisponivel),
      w\<lparr>cachedToken := None, logins := logins w + 1, trace := trace w @ [Login]\<rparr>)"
  by (subst obterToken.simps)
     (auto simp: post_login_def failed_500_def sleep_def MAX_RETRIES_token_def RETRY_DELAY_def split: sum.splits)

lemma obterToken_failure:
  "\<not> truthy_text (cachedToken w) \<Longrightarrow> login_outcome (login_resp env (logins w)) = Inl erro \<Longrightarrow>
   status erro \<noteq> Some 500 \<Longrightarrow>
   obterToken env rc w =
     (Inl (new_Error (FalhaAutenticacao (error_or_message erro))),
      w\<lparr>cachedToken := None, logins := logins w + 1, trace := trace w @ [Login]\<rparr>)"
  by (subst obterToken.simps)
     (auto simp: post_login_def failed_500_def sleep_def MAX_RETRIES_token_def RETRY_DELAY_def split: sum.splits)

lemma backoff_events_Suc: "backoff_events rc (Suc k) = [Login, Sleep (1000 * (rc + 1))] @ backoff_events (rc + 1) k"
  by (simp add: backoff_events_def upt_conv_Cons map_Suc_upt [symmetric] comp_def del: upt_Suc)

lemma obterToken_retries:
  "\<not> truthy_text (cachedToken w) \<Longrightarrow> rc + k \<le> 3 \<Longrightarrow>
   \<forall>j<k. failed_500 (login_outcome (login_resp env (logins w + j))) \<Longrightarrow>
   obterToken env rc w =
     obterToken env (rc + k) (w\<lparr>logins := logins w + k, trace := trace w @ backoff_events rc k\<rparr>)"
proof (induction k arbitrary: rc w)
  case 0
  then show ?case by (simp add: backoff_events_def)
next
  case (Suc k)
  let ?w = "w\<lparr>logins := logins w + 1, trace := trace w @ [Login, Sleep (1000 * (rc + 1))]\<rparr>"
  from Suc.prems have f0: "failed_500 (login_outcome (login_resp env (logins w)))"
    by (metis add.right_neutral zero_less_Suc)
  from Suc.prems have step: "obterToken env rc w = obterToken env (rc + 1) ?w"
    by (intro obterToken_retry f0) auto
  have "\<forall>j<k. failed_500 (login_outcome (login_resp env (logins ?w + j)))"
    using Suc.prems(3) by auto
  with Suc.prems have "obterToken env (rc + 1) ?w =
      obterToken env (rc + 1 + k) (?w\<lparr>logins := logins ?w + k, trace := trace ?w @ backoff_events (rc + 1) k\<rparr>)"
    by (intro Suc.IH) auto
  with step show ?case by (simp add: backoff_events_Suc)
qed


text \<open>
  C3 (as amended). Without a cached credential: after \<open>k \<le> 3\<close> login attempts that failed
  with status 500, each followed by a delay of 1000 ms times the number of the attempt,
  a login that succeeds stores the new credential in \<^verbatim>\<open>cachedToken\<close> and returns it; a
  login that fails with no status or a status below 500 (or answers without a token)
  clears \<^verbatim>\<open>cachedToken\<close> and fails with the error whose message carries the upstream's;
  a fourth failure with status 500 clears \<^verbatim>\<open>cachedToken\<close> and fails with the fixed
  message that the service is temporarily unavailable.
\<close>

theorem obterToken_policy:
  assumes "\<not> truthy_text (cachedToken w)" and "k \<le> 3"
      and "\<forall>j<k. failed_500 (login_outcome (login_resp env (logins w + j)))"
  shows "(\<forall>tok. login_outcome (login_resp env (logins w + k)) = Inr tok \<longrightarrow>
            obterToken env 0 w =
              (Inr tok, w\<lparr>cachedToken := Some tok, logins := logins w + k + 1,
                           trace := trace w @ backoff_events 0 k @ [Login]\<rparr>))
       \<and> (\<forall>erro. login_outcome (login_resp env (logins w + k)) = Inl erro \<and> \<not> status_ge_500 erro \<longrightarrow>
            obterToken env 0 w =
              (Inl (new_Error (FalhaAutenticacao (error_or_message erro))),
               w\<lparr>cachedToken := None, logins := logins w + k + 1,
                  trace := trace w @ backoff_events 0 k @ [Login]\<rparr>))
       \<and> (k = 3 \<and> failed_500 (login_outcome (login_resp env (logins w + k))) \<longrightarrow>
            obterToken env 0 w =
              (Inl (new_Error SankhyaIndisponivel),
               w\<lparr>cachedToken := None, logins := logins w + k + 1,
                  trace := trace w @ backoff_events 0 k @ [Login]\<rparr>))"
proof -
  let ?w = "w\<lparr>logins := logins w + k, trace := trace w @ backoff_events 0 k\<rparr>"
  have r: "obterToken env 0 w = obterToken env k ?w"
    using obterToken_retries [of w 0 k env] assms by simp
  have c: "\<not> truthy_text (cachedToken ?w)" using assms(1) by simp
  have a: "obterToken env 0 w =
              (Inr tok, w\<lparr>cachedToken := Some tok, logins := logins w + k + 1,
                           trace := trace w @ backoff_events 0 k @ [Login]\<rparr>)"
    if "login_outcome (login_resp env (logins w + k)) = Inr tok" for tok
    using obterToken_success [OF c, of env tok k] that r by simp
  have b: "obterToken env 0 w =
              (Inl (new_Error (FalhaAutenticacao (error_or_message erro))),
               w\<lparr>cachedToken := None, logins := logins w + k + 1,
                  trace := trace w @ backoff_events 0 k @ [Login]\<rparr>)"
    if "login_outcome (login_resp env (logins w + k)) = Inl erro" "\<not> status_ge_500 erro" for erro
  proof -
    from that(2) have "status erro \<noteq> Some 500" by (auto simp: status_ge_500_def)
    with obterToken_failure [OF c, of env erro k] that r show ?thesis by simp
  qed
  have d: "obterToken env 0 w =
              (Inl (new_Error SankhyaIndisponivel),
               w\<lparr>cachedToken := None, logins := logins w + k + 1,
                  trace := trace w @ backoff_events 0 k @ [Login]\<rparr>)"
    if "k = 3" "failed_500 (login_outcome (login_resp env (logins w + k)))"
    using obterToken_exhausted [OF c, of env k] that r by simp
  from a b d show ?thesis by blast
qed

lemma upt_2: "[0..<2] = [0, 1]" by (simp add: upt_conv_Cons)
lemma upt_3: "[0..<3] = [0, 1, 2]" by (simp add: upt_conv_Cons)

theorem obterToken_policy_witness:
  "obterToken env_login_third 0 w_fresh =
     (Inr ''T'', w_fresh\<lparr>cachedToken := Some ''T'', logins := 3,
                   trace := [Login, Sleep 1000, Login, Sleep 2000, Login]\<rparr>)
   \<and> obterToken env_login_denied 0 w_fresh =
     (Inl (new_Error (FalhaAutenticacao (Text ''bad credentials''))),
      w_fresh\<lparr>cachedToken := None, logins := 1, trace := [Login]\<rparr>)
   \<and> obterToken env_none 0 w_fresh =
     (Inl (new_Error SankhyaIndisponivel),
      w_fresh\<lparr>cachedToken := None, logins := 4,
         trace := [Login, Sleep 1000, Login, Sleep 2000, Login, Sleep 3000, Login]\<rparr>)"
  using obterToken_policy [of w_fresh 2 env_login_third]
        obterToken_policy [of w_fresh 0 env_login_denied]
        obterToken_policy [of w_fresh 3 env_none]
  by (simp add: w_fresh_def env_login_third_def env_login_denied_def env_none_def http_error_def
        truthy_text_def failed_500_def login_outcome_def login_token_def status_ge_500_def
        error_or_message_def backoff_events_def upt_2 upt_3)

text \<open>
  The claim as it was stated fails after the retries are exhausted: the upstream answers
  every login with status 500 and the error text \<^verbatim>\<open>boom\<close>, and the error of \<^verbatim>\<open>obterToken\<close>
  carries the fixed message, not the upstream's.
\<close>

theorem obterToken_exhaustion_counterexample:
  "fst (obterToken env_none 0 w_fresh) = Inl (new_Error SankhyaIndisponivel)
   \<and> login_resp env_none 3 = Rejected (http_error 500 (Some ''boom''))"
  by (simp add: obterToken.simps w_fresh_def env_none_def http_error_def post_login_def sleep_def
        truthy_text_def login_outcome_def MAX_RETRIES_token_def RETRY_DELAY_def)

section \<open>Properties of the request executor\<close>

lemma request_attempt_cached:
  "truthy_text (cachedToken w) \<Longrightarrow>
   request_attempt env ds w =
     (case post_resp env (posts w) of Rejected erro \<Rightarrow> Inl erro | Resolved d \<Rightarrow> Inr d,
      w\<lparr>posts := posts w + 1, trace := trace w @ [Post (text_of (cachedToken w)) ds]\<rparr>)"
  by (simp add: request_attempt_def obterToken_cached axios_post_def split: axios.splits)

lemma fazer_session_expired:
  "request_attempt env ds w = (Inl erro, w2) \<Longrightarrow> is_401_403 erro \<Longrightarrow> 1 \<le> rc \<Longrightarrow>
   fazerRequisicaoAutenticada env ds rc w = (Inl (new_Error SessaoExpirada), w2\<lparr>cachedToken := None\<rparr>)"
  by (subst fazerRequisicaoAutenticada.simps) simp

lemma fazer_first_401:
  "request_attempt env ds w = (Inl erro, w2) \<Longrightarrow> is_401_403 erro \<Longrightarrow>
   fazerRequisicaoAutenticada env ds 0 w =
     fazerRequisicaoAutenticada env ds 1 (sleep 500 (w2\<lparr>cachedToken := None\<rparr>))"
  by (subst fazerRequisicaoAutenticada.simps) simp

lemma fazer_success:
  "request_attempt env ds w = (Inr d, w2) \<Longrightarrow> fazerRequisicaoAutenticada env ds rc w = (Inr d, w2)"
  by (subst fazerRequisicaoAutenticada.simps) simp


lemma obterToken_Inr_truthy:
  "obterToken env rc w = (Inr tok, w1) \<Longrightarrow> cachedToken w1 = Some tok \<and> tok \<noteq> []"
proof (induction env rc w rule: obterToken.induct)
  case (1 env retryCount w)
  show ?case
  proof (cases "truthy_text (cachedToken w)")
    case True
    with "1.prems" show ?thesis
      by (auto simp: obterToken.simps truthy_text_def text_of_def split: option.splits)
  next
    case False
    with "1.prems" "1.IH" show ?thesis
      by (subst (asm) obterToken.simps)
         (auto simp: login_outcome_def login_token_def post_login_def
               split: sum.splits axios.splits if_splits option.splits prod.splits)
  qed
qed

text \<open>
  C4 (as amended). When the first attempt of a call (made with the credential \<open>t1\<close>) is
  answered with 401 or 403, the cached credential is cleared, 500 ms are waited and a
  new credential \<open>t2\<close> is obtained by a login; the request is sent once more with \<open>t2\<close>. Its
  data is the result when it succeeds; when it is answered with 401 or 403 again, the
  credential is cleared again and the call fails with the message that the session
  expired, after exactly two requests. On any attempt that is itself a retry (of either
  kind), a 401 or 403 clears the credential and fails with that message at once.
\<close>

theorem fazerRequisicaoAutenticada_401_policy:
  assumes "obterToken env 0 w = (Inr t1, w1)"
      and "post_resp env (posts w1) = Rejected e1" and "is_401_403 e1"
      and "login_outcome (login_resp env (logins w1)) = Inr t2"
  shows "(\<forall>d. post_resp env (posts w1 + 1) = Resolved d \<longrightarrow>
            fazerRequisicaoAutenticada env ds 0 w =
              (Inr d, w1\<lparr>cachedToken := Some t2, logins := logins w1 + 1, posts := posts w1 + 2,
                         trace := trace w1 @ [Post t1 ds, Sleep 500, Login, Post t2 ds]\<rparr>))
       \<and> (\<forall>e2. post_resp env (posts w1 + 1) = Rejected e2 \<and> is_401_403 e2 \<longrightarrow>
            fazerRequisicaoAutenticada env ds 0 w =
              (Inl (new_Error SessaoExpirada),
               w1\<lparr>cachedToken := None, logins := logins w1 + 1, posts := posts w1 + 2,
                  trace := trace w1 @ [Post t1 ds, Sleep 500, Login, Post t2 ds]\<rparr>))
       \<and> (\<forall>rc w' e w2. 1 \<le> rc \<and> request_attempt env ds w' = (Inl e, w2) \<and> is_401_403 e \<longrightarrow>
            fazerRequisicaoAutenticada env ds rc w' =
              (Inl (new_Error SessaoExpirada), w2\<lparr>cachedToken := None\<rparr>))"
proof -
  let ?w2 = "w1\<lparr>posts := posts w1 + 1, trace := trace w1 @ [Post t1 ds]\<rparr>"
  let ?w3 = "sleep 500 (?w2\<lparr>cachedToken := None\<rparr>)"
  let ?w4 = "?w3\<lparr>cachedToken := Some t2, logins := logins ?w3 + 1, trace := trace ?w3 @ [Login]\<rparr>"
  have first: "request_attempt env ds w = (Inl e1, ?w2)"
    using assms(1,2) by (simp add: request_attempt_def axios_post_def)
  have step: "fazerRequisicaoAutenticada env ds 0 w = fazerRequisicaoAutenticada env ds 1 ?w3"
    using fazer_first_401 [OF first assms(3)] .
  have "\<not> truthy_text (cachedToken ?w3)" by (simp add: sleep_def truthy_text_def)
  moreover have "login_outcome (login_resp env (logins ?w3)) = Inr t2"
    using assms(4) by (simp add: sleep_def)
  ultimately have tok: "obterToken env 0 ?w3 = (Inr t2, ?w4)"
    by (rule obterToken_success)
  have a: "fazerRequisicaoAutenticada env ds 0 w =
              (Inr d, w1\<lparr>cachedToken := Some t2, logins := logins w1 + 1, posts := posts w1 + 2,
                         trace := trace w1 @ [Post t1 ds, Sleep 500, Login, Post t2 ds]\<rparr>)"
    if "post_resp env (posts w1 + 1) = Resolved d" for d
  proof -
    have "request_attempt env ds ?w3 =
            (Inr d, ?w4\<lparr>posts := posts ?w4 + 1, trace := trace ?w4 @ [Post t2 ds]\<rparr>)"
      using tok that by (simp add: request_attempt_def axios_post_def sleep_def)
    from fazer_success [OF this, of 1] step show ?thesis by (simp add: sleep_def)
  qed
  have b: "fazerRequisicaoAutenticada env ds 0 w =
              (Inl (new_Error SessaoExpirada),
               w1\<lparr>cachedToken := None, logins := logins w1 + 1, posts := posts w1 + 2,
                  trace := trace w1 @ [Post t1 ds, Sleep 500, Login, Post t2 ds]\<rparr>)"
    if "post_resp env (posts w1 + 1) = Rejected e2" "is_401_403 e2" for e2
  proof -
    have "request_attempt env ds ?w3 =
            (Inl e2, ?w4\<lparr>posts := posts ?w4 + 1, trace := trace ?w4 @ [Post t2 ds]\<rparr>)"
      using tok that(1) by (simp add: request_attempt_def axios_post_def sleep_def)
    from fazer_session_expired [OF this that(2), of 1] step show ?thesis by (simp add: sleep_def)
  qed
  from a b fazer_session_expired show ?thesis by blast
qed

theorem fazerRequisicaoAutenticada_401_policy_witness:
  "fazerRequisicaoAutenticada env_401_ok ds0 0 w_T =
     (Inr None, w_T\<lparr>cachedToken := Some ''T2'', logins := 1, posts := 2,
                    trace := [Post ''T'' ds0, Sleep 500, Login, Post ''T2'' ds0]\<rparr>)
   \<and> fazerRequisicaoAutenticada env_401_401 ds0 0 w_T =
     (Inl (new_Error SessaoExpirada),
      w_T\<lparr>cachedToken := None, logins := 1, posts := 2,
           trace := [Post ''T'' ds0, Sleep 500, Login, Post ''T2'' ds0]\<rparr>)"
  using fazerRequisicaoAutenticada_401_policy [of env_401_ok w_T "''T''" w_T "http_error 401 None" "''T2''" ds0]
        fazerRequisicaoAutenticada_401_policy [of env_401_401 w_T "''T''" w_T "http_error 401 None" "''T2''" ds0]
  by (simp add: obterToken_cached w_T_def w_fresh_def env_401_ok_def env_401_401_def env_none_def
        http_error_def truthy_text_def text_of_def is_401_403_def login_outcome_def login_token_def)

text \<open>
  The claim as it was stated fails when the first 401 of a call comes after a retry for a
  server error: with the answers 503, 401 the call waits 1000 ms, sends the request again
  and, on the 401, fails with the session-expired message without a fresh credential or
  another request.
\<close>

theorem fazerRequisicaoAutenticada_first_401_counterexample:
  "fazerRequisicaoAutenticada env_503_401 ds0 0 w_T =
     (Inl (new_Error SessaoExpirada),
      w_T\<lparr>cachedToken := None, posts := 2, trace := [Post ''T'' ds0, Sleep 1000, Post ''T'' ds0]\<rparr>)"
  by (simp add: fazerRequisicaoAutenticada.simps request_attempt_def obterToken.simps axios_post_def
        sleep_def w_T_def w_fresh_def env_503_401_def env_none_def http_error_def truthy_text_def text_of_def
        is_401_403_def status_ge_500_def MAX_RETRIES_request_def RETRY_DELAY_def)

section \<open>Properties of the price lookup\<close>

lemma cacheService_get_miss:
  "map_of (cache w) key = None \<Longrightarrow> cacheService_get env key w = (None, w)"
  by (simp add: cacheService_get_def)

lemma obterToken_frame:
  "obterToken env rc w = (r, w1) \<Longrightarrow>
     cache w1 = cache w \<and> gets w1 = gets w \<and> ticks w1 = ticks w \<and> posts w1 = posts w
     \<and> logins w \<le> logins w1 \<and> (truthy_text (cachedToken w) \<or> logins w < logins w1)"
proof (induction env rc w rule: obterToken.induct)
  case (1 env retryCount w)
  show ?case
  proof (cases "truthy_text (cachedToken w)")
    case True
    with "1.prems" show ?thesis by (simp add: obterToken.simps)
  next
    case False
    show ?thesis
    proof (cases "login_outcome (login_resp env (logins w))")
      case (Inr tok)
      with False "1.prems" show ?thesis
        by (subst (asm) obterToken.simps) (auto simp: post_login_def)
    next
      case (Inl erro)
      show ?thesis
      proof (cases "status erro = Some 500 \<and> retryCount < MAX_RETRIES_token")
        case True
        with False Inl "1.prems"
        have "obterToken env (retryCount + 1) (sleep (RETRY_DELAY * (retryCount + 1)) (snd (post_login env w))) = (r, w1)"
          by (subst (asm) obterToken.simps) (auto simp: post_login_def)
        with "1.IH" [of "fst (post_login env w)" "snd (post_login env w)" erro] False Inl True
        show ?thesis by (simp add: post_login_def sleep_def)
      next
        case no: False
        with False Inl "1.prems" show ?thesis
          by (subst (asm) obterToken.simps) (auto simp: post_login_def split: if_splits)
      qed
    qed
  qed
qed


lemma preco_attempt_fail_frame:
  "preco_attempt env cod w = (Inl e, w2) \<Longrightarrow>
     cache w2 = cache w \<and> logins w + gets w < logins w2 + gets w2"
  using obterToken_frame [of env 0 w] obterToken_cached [of w env 0]
  by (cases "obterToken env 0 w")
     (auto simp: preco_attempt_def axios_get_def split: sum.splits axios.splits prod.splits)

lemma preco_attempt_success:
  "preco_attempt env cod w = (Inr p, w2) \<Longrightarrow>
     (\<exists>d. get_resp env (gets w) = Resolved d \<and> extract_preco d = Inr p)
   \<and> cache w2 = cache_set (clock env (ticks w)) (''preco:'' @ cod) (VNum p) (Some 600000) (cache w)
   \<and> logins w + gets w < logins w2 + gets w2"
  using obterToken_frame [of env 0 w]
  by (cases "obterToken env 0 w")
     (auto simp: preco_attempt_def axios_get_def cacheService_set_def Date_now_def
           split: sum.splits axios.splits prod.splits)

lemma preco_attempt_with_token:
  "fst (obterToken env 0 w) = Inr tok \<Longrightarrow> get_resp env (gets w) = Resolved d \<Longrightarrow>
   extract_preco d = Inr p \<Longrightarrow> fst (preco_attempt env cod w) = Inr p"
  using obterToken_frame [of env 0 w]
  by (cases "obterToken env 0 w")
     (auto simp: preco_attempt_def axios_get_def split: sum.splits axios.splits prod.splits)

lemma buscar_last:
  "map_of (cache w) (''preco:'' @ cod) = None \<Longrightarrow> 1 \<le> rc \<Longrightarrow>
   buscarPrecoProduto env cod rc w =
     (case preco_attempt env cod w of
        (Inr p, w2) \<Rightarrow> (Inr (VNum p), w2)
      | (Inl e, w2) \<Rightarrow> (Inr (VNum (Fin 0)), if is_401_403 e then w2\<lparr>cachedToken := None\<rparr> else w2))"
  by (subst buscarPrecoProduto.simps)
     (auto simp: cacheService_get_miss MAX_RETRIES_preco_def Let_def split: sum.splits prod.splits)

lemma buscar_first:
  "map_of (cache w) (''preco:'' @ cod) = None \<Longrightarrow>
   buscarPrecoProduto env cod 0 w =
     (case preco_attempt env cod w of
        (Inr p, w2) \<Rightarrow> (Inr (VNum p), w2)
      | (Inl e, w2) \<Rightarrow>
          if retryable e then
            buscarPrecoProduto env cod 1 (sleep 500 (if is_401_403 e then w2\<lparr>cachedToken := None\<rparr> else w2))
          else (Inr (VNum (Fin 0)), w2))"
  by (subst buscarPrecoProduto.simps)
     (auto simp: cacheService_get_miss MAX_RETRIES_preco_def Let_def retryable_def split: sum.splits prod.splits)

lemma buscar_outcome_last:
  assumes "map_of (cache w) (''preco:'' @ cod) = None" and "1 \<le> rc"
  shows "miss_outcome env cod w (buscarPrecoProduto env cod rc w)"
proof (cases "preco_attempt env cod w")
  case (Pair r w2)
  show ?thesis
  proof (cases r)
    case (Inl e)
    with Pair preco_attempt_fail_frame [of env cod w e w2] assms show ?thesis
      by (auto simp: buscar_last miss_outcome_def)
  next
    case (Inr p)
    with Pair preco_attempt_success [of env cod w p w2] assms show ?thesis
      by (simp add: buscar_last miss_outcome_def) blast
  qed
qed

lemma buscar_outcome:
  assumes "map_of (cache w) (''preco:'' @ cod) = None"
  shows "miss_outcome env cod w (buscarPrecoProduto env cod rc w)"
proof (cases "1 \<le> rc")
  case True
  with assms show ?thesis by (rule buscar_outcome_last)
next
  case False
  then have rc: "rc = 0" by simp
  show ?thesis
  proof (cases "preco_attempt env cod w")
    case (Pair r w2)
    show ?thesis
    proof (cases r)
      case (Inr p)
      with Pair preco_attempt_success [of env cod w p w2] assms rc show ?thesis
        by (simp add: buscar_first miss_outcome_def) blast
    next
      case (Inl e)
      note fr = preco_attempt_fail_frame [of env cod w e w2]
      show ?thesis
      proof (cases "retryable e")
        case False
        with Inl Pair fr assms rc show ?thesis
          by (auto simp: buscar_first miss_outcome_def)
      next
        case True
        let ?w = "sleep 500 (if is_401_403 e then w2\<lparr>cachedToken := None\<rparr> else w2)"
        have c: "cache ?w = cache w" and l: "logins ?w = logins w2" and g: "gets ?w = gets w2"
          using fr Inl Pair by (auto simp: sleep_def)
        with assms have "map_of (cache ?w) (''preco:'' @ cod) = None" by simp
        then have "miss_outcome env cod ?w (buscarPrecoProduto env cod 1 ?w)"
          by (rule buscar_outcome_last) simp
        then obtain p w' where res: "buscarPrecoProduto env cod 1 ?w = (Inr (VNum p), w')"
            and lt: "logins w2 + gets w2 < logins w' + gets w'"
            and alt: "(p = Fin 0 \<and> cache w' = cache w)
               \<or> (\<exists>n d t. get_resp env n = Resolved d \<and> extract_preco d = Inr p
                    \<and> cache w' = cache_set t (''preco:'' @ cod) (VNum p) (Some 600000) (cache w))"
          unfolding miss_outcome_def c l g by blast
        have "buscarPrecoProduto env cod rc w = buscarPrecoProduto env cod 1 ?w"
          using Inl Pair True assms rc by (simp add: buscar_first)
        with res have "buscarPrecoProduto env cod rc w = (Inr (VNum p), w')" by simp
        moreover from lt fr Inl Pair have "logins w + gets w < logins w' + gets w'" by simp
        ultimately show ?thesis
          unfolding miss_outcome_def using alt by blast
      qed
    qed
  qed
qed


lemma cacheService_get_miss_snd:
  "fst (cacheService_get env key w) = None \<Longrightarrow>
     map_of (cache (snd (cacheService_get env key w))) key = None
   \<and> logins (snd (cacheService_get env key w)) = logins w
   \<and> gets (snd (cacheService_get env key w)) = gets w
   \<and> cachedToken (snd (cacheService_get env key w)) = cachedToken w"
  by (cases "map_of (cache w) key")
     (simp_all add: cacheService_get_def cache_get_def Date_now_def Let_def delete_conv'
           split: if_splits)

lemma cacheService_get_None_absent:
  "cacheService_get env key w = (None, w0) \<Longrightarrow> map_of (cache w0) key = None"
  using cacheService_get_miss_snd [of env key w] by simp

lemma cacheService_get_None_frame:
  "cacheService_get env key w = (None, w0) \<Longrightarrow>
     logins w0 = logins w \<and> gets w0 = gets w \<and> cachedToken w0 = cachedToken w"
  using cacheService_get_miss_snd [of env key w] by simp

lemma buscar_miss_eq:
  assumes "cacheService_get env (''preco:'' @ cod) w = (None, w0)"
  shows "buscarPrecoProduto env cod rc w = buscarPrecoProduto env cod rc w0"
proof -
  have "cacheService_get env (''preco:'' @ cod) w0 = (None, w0)"
    using cacheService_get_None_absent [OF assms] by (rule cacheService_get_miss)
  with assms show ?thesis
    by (simp add: buscarPrecoProduto.simps [of env cod rc w] buscarPrecoProduto.simps [of env cod rc w0])
qed

lemma buscar_hit:
  "cacheService_get env (''preco:'' @ cod) w = (Some v, w0) \<Longrightarrow>
   buscarPrecoProduto env cod rc w = (Inr v, w0)"
  by (simp add: buscarPrecoProduto.simps [of env cod rc w])

lemma buscar_first_price:
  assumes "map_of (cache w) (''preco:'' @ cod) = None"
      and "fst (obterToken env 0 w) = Inr tok" and "get_resp env (gets w) = Resolved d"
      and "extract_preco d = Inr p"
  shows "fst (buscarPrecoProduto env cod rc w) = Inr (VNum p)
       \<and> cache (snd (buscarPrecoProduto env cod rc w)) =
           cache_set (clock env (ticks w)) (''preco:'' @ cod) (VNum p) (Some 600000) (cache w)"
proof -
  from preco_attempt_with_token [OF assms(2-4), of cod]
  obtain w2 where a: "preco_attempt env cod w = (Inr p, w2)"
    by (cases "preco_attempt env cod w") auto
  have "buscarPrecoProduto env cod rc w = (Inr (VNum p), w2)"
  proof (cases "1 \<le> rc")
    case True
    with a assms(1) show ?thesis by (simp add: buscar_last)
  next
    case False
    then have "rc = 0" by simp
    with a assms(1) show ?thesis by (simp add: buscar_first)
  qed
  with preco_attempt_success [OF a] show ?thesis by simp
qed

lemma buscarPrecoProduto_total: "\<exists>v w'. buscarPrecoProduto env codProd rc w = (Inr v, w')"
proof (cases "cacheService_get env (''preco:'' @ codProd) w")
  case (Pair c w0)
  show ?thesis
  proof (cases c)
    case (Some v)
    with Pair buscar_hit [of env codProd w v w0 rc] show ?thesis by simp
  next
    case None
    with Pair buscar_miss_eq [of env codProd w w0 rc]
    have "buscarPrecoProduto env codProd rc w = buscarPrecoProduto env codProd rc w0"
      by simp
    moreover have "miss_outcome env codProd w0 (buscarPrecoProduto env codProd rc w0)"
      using Pair None by (intro buscar_outcome cacheService_get_None_absent [of env _ w]) simp
    ultimately show ?thesis unfolding miss_outcome_def by auto
  qed
qed

text \<open>
  C5. \<^verbatim>\<open>buscarPrecoProduto\<close> never raises: from every state and for every upstream it returns
  a value. Without an entry for the code in the cache the value is a number: 0, or the
  price of a response of the price endpoint that resolved; when the credential is
  available and the first price call resolves, it is the price of that response, which is
  \<^verbatim>\<open>parseFloat\<close> of the first \<^verbatim>\<open>valor\<close> (or 0 when that is \<^verbatim>\<open>NaN\<close> or 0) and 0 when the response
  has no price. The text \<^verbatim>\<open>"12.50"\<close> gives 12.5.
\<close>

theorem buscarPrecoProduto_never_raises:
  "(\<exists>v w'. buscarPrecoProduto env codProd rc w = (Inr v, w'))
   \<and> (map_of (cache w) (''preco:'' @ codProd) = None \<longrightarrow>
        (\<exists>p. fst (buscarPrecoProduto env codProd rc w) = Inr (VNum p)
             \<and> (p = Fin 0 \<or> (\<exists>n d. get_resp env n = Resolved d \<and> extract_preco d = Inr p)))
      \<and> (\<forall>tok d p. fst (obterToken env 0 w) = Inr tok \<and> get_resp env (gets w) = Resolved d
                    \<and> extract_preco d = Inr p \<longrightarrow>
            fst (buscarPrecoProduto env codProd rc w) = Inr (VNum p)))
   \<and> (\<forall>valor rest. extract_preco (Some (Item (Some valor) # rest)) = Inr (num_or_zero (parseFloat valor)))
   \<and> (\<forall>rest. extract_preco (Some (Item None # rest)) = Inr (Fin 0))
   \<and> extract_preco (Some []) = Inr (Fin 0) \<and> extract_preco None = Inr (Fin 0)
   \<and> num_or_zero (parseFloat ''12.50'') = Fin (25 / 2)"
proof -
  have total: "\<exists>v w'. buscarPrecoProduto env codProd rc w = (Inr v, w')"
    by (rule buscarPrecoProduto_total)
  have miss: "\<exists>p. fst (buscarPrecoProduto env codProd rc w) = Inr (VNum p)
             \<and> (p = Fin 0 \<or> (\<exists>n d. get_resp env n = Resolved d \<and> extract_preco d = Inr p))"
    if "map_of (cache w) (''preco:'' @ codProd) = None"
    using buscar_outcome [OF that, of env rc] unfolding miss_outcome_def by force
  have first: "fst (buscarPrecoProduto env codProd rc w) = Inr (VNum p)"
    if "map_of (cache w) (''preco:'' @ codProd) = None" "fst (obterToken env 0 w) = Inr tok"
       "get_resp env (gets w) = Resolved d" "extract_preco d = Inr p" for tok d p
    using buscar_first_price [OF that] by simp
  have ex: "num_or_zero (parseFloat ''12.50'') = Fin (25 / 2)"
    by (simp add: num_or_zero_def parseFloat_def is_space_def after_sign_def is_digit_def
          digit_val_def exponent_def is_negative_def Let_def)
  have ext: "extract_preco (Some (Item (Some valor) # rest)) = Inr (num_or_zero (parseFloat valor))"
       "extract_preco (Some (Item None # rest)) = Inr (Fin 0)"
       "extract_preco (Some []) = Inr (Fin 0)" "extract_preco None = Inr (Fin 0)" for valor rest
    by (simp_all add: extract_preco_def parseFloat_member_def num_or_zero_def)
  from total miss first ex ext show ?thesis by blast
qed

theorem buscarPrecoProduto_never_raises_witness:
  "fst (buscarPrecoProduto env_preco ''10'' 0 w_T) = Inr (VNum (Fin (25 / 2)))
   \<and> fst (buscarPrecoProduto env_none ''10'' 0 w_T) = Inr (VNum (Fin 0))"
  using buscarPrecoProduto_never_raises [of env_preco "''10''" 0 w_T]
        buscarPrecoProduto_never_raises [of env_none "''10''" 0 w_T]
  by (auto simp: obterToken_cached w_T_def w_fresh_def env_preco_def env_none_def truthy_text_def text_of_def)


text \<open>
  C9. When the lookup misses the cache (the state after the miss is \<open>w1\<close>: the state before
  it, unless the read dropped an expired entry of this key), the result is a number and
  the store is either left as the miss left it, with the result 0, or holds the price of a
  response that resolved, under the key of the code with a ttl of 10 minutes. When every
  price call is rejected the result is 0, the store is left as it was, and any later
  lookup of the code calls the upstream again. When the credential is available and the
  first price call resolves, its price (0 when it carries none) is what is stored, with
  the time of the write.
\<close>

theorem buscarPrecoProduto_cache_writes:
  assumes "cacheService_get env (''preco:'' @ codProd) w = (None, w1)"
  shows "\<exists>p w'. buscarPrecoProduto env codProd rc w = (Inr (VNum p), w')
           \<and> ((p = Fin 0 \<and> cache w' = cache w1)
              \<or> (\<exists>n d t. get_resp env n = Resolved d \<and> extract_preco d = Inr p
                    \<and> cache w' = cache_set t (''preco:'' @ codProd) (VNum p) (Some (10 * 60 * 1000)) (cache w1)))
           \<and> ((\<forall>n. \<exists>e. get_resp env n = Rejected e) \<longrightarrow>
                 p = Fin 0 \<and> cache w' = cache w1
               \<and> (\<forall>rc'. logins w' + gets w' <
                     logins (snd (buscarPrecoProduto env codProd rc' w'))
                       + gets (snd (buscarPrecoProduto env codProd rc' w'))))
           \<and> (\<forall>tok d q. fst (obterToken env 0 w1) = Inr tok \<and> get_resp env (gets w1) = Resolved d
                    \<and> extract_preco d = Inr q \<longrightarrow>
                 p = q \<and> cache w' = cache_set (clock env (ticks w1)) (''preco:'' @ codProd) (VNum q)
                                       (Some (10 * 60 * 1000)) (cache w1))
           \<and> (map_of (cache w) (''preco:'' @ codProd) = None \<longrightarrow> w1 = w)"
proof -
  let ?key = "''preco:'' @ codProd"
  have absent: "map_of (cache w1) ?key = None"
    using assms by (rule cacheService_get_None_absent)
  have eq: "buscarPrecoProduto env codProd rc w = buscarPrecoProduto env codProd rc w1"
    using assms by (rule buscar_miss_eq)
  from buscar_outcome [OF absent, of env rc]
  obtain p w' where res: "buscarPrecoProduto env codProd rc w1 = (Inr (VNum p), w')"
      and alt: "(p = Fin 0 \<and> cache w' = cache w1)
              \<or> (\<exists>n d t. get_resp env n = Resolved d \<and> extract_preco d = Inr p
                    \<and> cache w' = cache_set t ?key (VNum p) (Some 600000) (cache w1))"
    unfolding miss_outcome_def by blast
  have fail: "p = Fin 0 \<and> cache w' = cache w1
               \<and> (\<forall>rc'. logins w' + gets w' <
                     logins (snd (buscarPrecoProduto env codProd rc' w'))
                       + gets (snd (buscarPrecoProduto env codProd rc' w')))"
    if rej: "\<forall>n. \<exists>e. get_resp env n = Rejected e"
  proof -
    from rej have none: "get_resp env n \<noteq> Resolved d" for n d
      by (metis axios.distinct(1))
    with alt have u: "p = Fin 0" "cache w' = cache w1" by auto
    with absent have "map_of (cache w') ?key = None" by simp
    from buscar_outcome [OF this, of env] have
      "logins w' + gets w' < logins (snd (buscarPrecoProduto env codProd rc' w'))
                       + gets (snd (buscarPrecoProduto env codProd rc' w'))" for rc'
      unfolding miss_outcome_def by (metis snd_conv)
    with u show ?thesis by simp
  qed
  have first: "p = q \<and> cache w' = cache_set (clock env (ticks w1)) ?key (VNum q) (Some 600000) (cache w1)"
    if "fst (obterToken env 0 w1) = Inr tok" "get_resp env (gets w1) = Resolved d" "extract_preco d = Inr q"
    for tok d q
    using buscar_first_price [OF absent that, of rc] res by simp
  have same: "w1 = w" if "map_of (cache w) ?key = None"
    using cacheService_get_miss [OF that, of env] assms by simp
  have n: "(10 * 60 * 1000 :: int) = 600000" by simp
  from res eq have r: "buscarPrecoProduto env codProd rc w = (Inr (VNum p), w')" by simp
  show ?thesis unfolding n
    by (rule exI [of _ p], rule exI [of _ w']) (use r alt fail first same in blast)
qed

theorem buscarPrecoProduto_cache_writes_witness:
  "cacheService_get env_none ''preco:10'' w_T = (None, w_T)
   \<and> fst (buscarPrecoProduto env_none ''10'' 0 w_T) = Inr (VNum (Fin 0))
   \<and> cache (snd (buscarPrecoProduto env_none ''10'' 0 w_T)) = cache w_T
   \<and> trace (snd (buscarPrecoProduto env_none ''10'' 0 w_T)) =
       [Get ''T'' ''10'', Sleep 500, Get ''T'' ''10'']
   \<and> cache (snd (buscarPrecoProduto env_preco ''10'' 0 w_T)) =
       [(''preco:10'', \<lparr>data = VNum (Fin (25 / 2)), timestamp = 0, ttl = 600000\<rparr>)]"
proof -
  have m: "cacheService_get env_none (''preco:'' @ ''10'') w_T = (None, w_T)"
          "cacheService_get env_preco (''preco:'' @ ''10'') w_T = (None, w_T)"
    by (simp_all add: cacheService_get_def w_T_def w_fresh_def)
  have rej: "\<forall>n. \<exists>e. get_resp env_none n = Rejected e"
    by (simp add: env_none_def)
  from buscarPrecoProduto_cache_writes [OF m(1), of 0] rej
  have failing: "fst (buscarPrecoProduto env_none ''10'' 0 w_T) = Inr (VNum (Fin 0))
       \<and> cache (snd (buscarPrecoProduto env_none ''10'' 0 w_T)) = cache w_T"
    by auto
  have tr: "trace (snd (buscarPrecoProduto env_none ''10'' 0 w_T)) =
       [Get ''T'' ''10'', Sleep 500, Get ''T'' ''10'']"
    by (simp add: buscarPrecoProduto.simps preco_attempt_def obterToken.simps cacheService_get_def
          axios_get_def sleep_def w_T_def w_fresh_def env_none_def http_error_def truthy_text_def
          text_of_def is_401_403_def status_ge_500_def MAX_RETRIES_preco_def Let_def)
  have "cache (snd (buscarPrecoProduto env_preco ''10'' 0 w_T)) =
       [(''preco:10'', \<lparr>data = VNum (Fin (25 / 2)), timestamp = 0, ttl = 600000\<rparr>)]"
    using buscarPrecoProduto_cache_writes [OF m(2), of 0]
    by (auto simp: obterToken_cached w_T_def w_fresh_def env_preco_def env_none_def truthy_text_def
          text_of_def extract_preco_def parseFloat_member_def num_or_zero_def parseFloat_def
          is_space_def after_sign_def is_digit_def digit_val_def exponent_def is_negative_def Let_def
          cache_set_def ttl_or_default_def)
  with failing tr m(1) show ?thesis by simp
qed

section \<open>Properties of the product listing\<close>

text \<open>
  C10 (as amended). When the request of a product listing succeeds and its body has no
  \<^verbatim>\<open>responseBody.entities\<close>, or \<^verbatim>\<open>entities\<close> has no member \<^verbatim>\<open>entity\<close>, \<^verbatim>\<open>consultarProdutos\<close>
  does not raise: it returns the page with no products, total 0 and 0 pages, for the page
  and page size that were asked for.
\<close>

theorem consultarProdutos_empty_page:
  assumes "fazerRequisicaoAutenticada env (produtos_dataSet page pageSize searchName searchCode) 0 w
             = (Inr body, w1)"
      and "body = None \<or> (\<exists>ents. body = Some ents \<and> entity ents = NoEntity)"
  shows "consultarProdutos env page pageSize searchName searchCode w =
           (Inr \<lparr>produtos = [], total_produtos = Fin 0, page_no = page, page_size = pageSize,
                  totalPages = Fin 0\<rparr>, w1)"
  using assms by (auto simp: consultarProdutos_def pagina_vazia_def)

theorem consultarProdutos_empty_page_witness:
  "fst (consultarProdutos env_no_entities 2 50 [] [] w_T) =
       Inr \<lparr>produtos = [], total_produtos = Fin 0, page_no = 2, page_size = 50, totalPages = Fin 0\<rparr>
   \<and> fst (consultarProdutos env_no_entity 2 50 [] [] w_T) =
       Inr \<lparr>produtos = [], total_produtos = Fin 0, page_no = 2, page_size = 50, totalPages = Fin 0\<rparr>"
proof -
  have a: "fazerRequisicaoAutenticada env_no_entities (produtos_dataSet 2 50 [] []) 0 w_T =
      (Inr None, w_T\<lparr>posts := 1, trace := [Post ''T'' (produtos_dataSet 2 50 [] [])]\<rparr>)"
    by (simp add: fazerRequisicaoAutenticada.simps request_attempt_cached w_T_def w_fresh_def
          env_no_entities_def env_none_def truthy_text_def text_of_def)
  have b: "fazerRequisicaoAutenticada env_no_entity (produtos_dataSet 2 50 [] []) 0 w_T =
      (Inr (Some \<lparr>metadata = None, entity = NoEntity, total = Some ''0''\<rparr>),
       w_T\<lparr>posts := 1, trace := [Post ''T'' (produtos_dataSet 2 50 [] [])]\<rparr>)"
    by (simp add: fazerRequisicaoAutenticada.simps request_attempt_cached w_T_def w_fresh_def
          env_no_entity_def env_none_def truthy_text_def text_of_def)
  from consultarProdutos_empty_page [OF a] consultarProdutos_empty_page [OF b]
  show ?thesis by simp
qed

text \<open>
  The claim as it was stated, for every response without entity rows, fails for a response
  whose \<^verbatim>\<open>entity\<close> is the empty array (and that has no \<^verbatim>\<open>total\<close>): an array is truthy, the
  rows are normalized, and the page has no products and total 0 but 1 page.
\<close>

theorem consultarProdutos_empty_array_counterexample:
  "fst (consultarProdutos env_empty_array 1 50 [] [] w_T) =
     Inr \<lparr>produtos = [], total_produtos = Fin 0, page_no = 1, page_size = 50, totalPages = Fin 1\<rparr>"
  by (simp add: consultarProdutos_def fazerRequisicaoAutenticada.simps request_attempt_cached
        mapearEntidades_def w_T_def w_fresh_def env_empty_array_def env_none_def truthy_text_def text_of_def)

section \<open>Properties of the stock lookup\<close>

lemmas parse_defs = parseFloat_def is_space_def after_sign_def is_digit_def
          digit_val_def exponent_def is_negative_def Let_def

lemma mapear_estoque:
  "mapearEntidades (estoque_entities a b) =
     Inr [[''ESTOQUE'' \<mapsto> Str a, ''CODPROD'' \<mapsto> Str ''10'', ''_id'' \<mapsto> Str ''10''],
          [''ESTOQUE'' \<mapsto> Str b, ''CODPROD'' \<mapsto> Str ''10'', ''_id'' \<mapsto> Str ''10'']]"
  by (simp add: estoque_entities_def mapearEntidades_def map_entity_def string_of_nat.simps digit_char_def)

lemma consultar_estoque_example:
  "fst (consultarEstoqueProduto (env_estoque a b) ''10'' [] w_T) =
     Inr (VEstoque \<lparr>estoques =
            [[''ESTOQUE'' \<mapsto> Str a, ''CODPROD'' \<mapsto> Str ''10'', ''_id'' \<mapsto> Str ''10''],
             [''ESTOQUE'' \<mapsto> Str b, ''CODPROD'' \<mapsto> Str ''10'', ''_id'' \<mapsto> Str ''10'']],
          total_estoques = 2,
          estoqueTotal = js_add (js_add (Fin 0) (parseFloat (if a = [] then ''0'' else a)))
                                (parseFloat (if b = [] then ''0'' else b))\<rparr>)"
proof -
  have "fazerRequisicaoAutenticada (env_estoque a b) (estoque_dataSet ''10'' []) 0 w_T =
      (Inr (Some (estoque_entities a b)),
       w_T\<lparr>posts := 1, trace := [Post ''T'' (estoque_dataSet ''10'' [])]\<rparr>)"
    by (simp add: fazerRequisicaoAutenticada.simps request_attempt_cached w_T_def w_fresh_def
          env_estoque_def env_none_def truthy_text_def text_of_def)
  moreover have "entity (estoque_entities a b) \<noteq> NoEntity"
    by (simp add: estoque_entities_def)
  moreover have "cacheService_get (env_estoque a b) (''estoque:'' @ ''10'' @ '':'' @ []) w_T = (None, w_T)"
    by (simp add: cacheService_get_def w_T_def w_fresh_def)
  ultimately show ?thesis
    by (simp add: consultarEstoqueProduto_def mapear_estoque somar_estoque_def quantidade_def Let_def)
qed

lemma foldl_js_add_NaN: "foldl (\<lambda>acc e. js_add acc (f e)) NaN xs = NaN"
  by (induction xs) auto

lemma js_add_NaN_right: "js_add x NaN = NaN"
  by (cases x) auto

lemma somar_estoque_NaN:
  assumes "r \<in> set rows" and "quantidade r = NaN"
  shows "somar_estoque rows = NaN"
proof -
  from assms(1) obtain xs ys where "rows = xs @ r # ys" by (auto simp: in_set_conv_decomp)
  with assms(2) show ?thesis
    by (simp add: somar_estoque_def js_add_NaN_right foldl_js_add_NaN)
qed

lemma foldl_js_add_Fin:
  "\<forall>r \<in> set rows. \<exists>q. f r = Fin q \<Longrightarrow>
   foldl (\<lambda>acc e. js_add acc (f e)) (Fin a) rows =
     Fin (a + sum_list (map (\<lambda>r. case f r of Fin q \<Rightarrow> q | _ \<Rightarrow> 0) rows))"
  by (induction rows arbitrary: a) (auto simp: add.assoc)


lemma somar_estoque_valid:
  "\<forall>r \<in> set rows. \<exists>q. quantidade r = Fin q \<Longrightarrow>
   somar_estoque rows = Fin (sum_list (map (\<lambda>r. case quantidade r of Fin q \<Rightarrow> q | _ \<Rightarrow> 0) rows))"
  using foldl_js_add_Fin [of rows quantidade 0] by (simp add: somar_estoque_def)

lemma quantidade_missing: "estoque ''ESTOQUE'' = None \<Longrightarrow> quantidade estoque = Fin 0"
  by (simp add: quantidade_def parse_defs)

text \<open>
  C2. The total is the left-to-right sum, from 0, of \<^verbatim>\<open>parseFloat(ESTOQUE || '0')\<close> over the
  normalized rows. A missing \<^verbatim>\<open>ESTOQUE\<close> counts as 0 and the rows \<^verbatim>\<open>"3"\<close>, \<^verbatim>\<open>"2.5"\<close> give 5.5,
  as the claim says; but a text that is not a number is read as \<^verbatim>\<open>NaN\<close> and is not replaced
  by 0, so the total of the rows \<^verbatim>\<open>"3"\<close>, \<^verbatim>\<open>"abc"\<close> is \<^verbatim>\<open>NaN\<close> where the claim gives 3.
\<close>

theorem consultarEstoqueProduto_invalid_is_NaN:
  "fst (consultarEstoqueProduto (env_estoque ''3'' ''abc'') ''10'' [] w_T) =
     Inr (VEstoque \<lparr>estoques =
            [[''ESTOQUE'' \<mapsto> Str ''3'', ''CODPROD'' \<mapsto> Str ''10'', ''_id'' \<mapsto> Str ''10''],
             [''ESTOQUE'' \<mapsto> Str ''abc'', ''CODPROD'' \<mapsto> Str ''10'', ''_id'' \<mapsto> Str ''10'']],
          total_estoques = 2, estoqueTotal = NaN\<rparr>)
   \<and> fst (consultarEstoqueProduto (env_estoque ''3'' ''2.5'') ''10'' [] w_T) =
     Inr (VEstoque \<lparr>estoques =
            [[''ESTOQUE'' \<mapsto> Str ''3'', ''CODPROD'' \<mapsto> Str ''10'', ''_id'' \<mapsto> Str ''10''],
             [''ESTOQUE'' \<mapsto> Str ''2.5'', ''CODPROD'' \<mapsto> Str ''10'', ''_id'' \<mapsto> Str ''10'']],
          total_estoques = 2, estoqueTotal = Fin (11 / 2)\<rparr>)"
  by (simp add: consultar_estoque_example parse_defs)

section \<open>Properties of the batch endpoint\<close>













end
